theory Spec2Isabelle
  imports Main "HOL-Library.Char_ord" "HOL-Library.List_Lexorder"
begin

section \<open>JavaScript values used by the view controllers\<close>

text \<open>
  The renderer scripts use plain objects as dictionaries. Reading \<open>obj[k]\<close> yields the
  own property when there is one, a member of \<open>Object.prototype\<close> when \<open>k\<close> names one,
  and \<open>undefined\<close> otherwise. The handlers test \<open>typeof obj[k] !== 'undefined'\<close> and then
  dereference the value, so an inherited member passes the test and the dereference of
  one of its (missing) fields raises a TypeError. The three outcomes of a read are kept
  apart for that reason.
\<close>

datatype 'v jsprop = Undefined | Own 'v | Inherited

datatype error = TypeError

definition object_prototype_keys :: "string list" where
  "object_prototype_keys =
     [''constructor'', ''__defineGetter__'', ''__defineSetter__'', ''hasOwnProperty'',
      ''__lookupGetter__'', ''__lookupSetter__'', ''isPrototypeOf'',
      ''propertyIsEnumerable'', ''toString'', ''valueOf'', ''__proto__'',
      ''toLocaleString'']"

definition obj_get :: "(string \<rightharpoonup> 'v) \<Rightarrow> string \<Rightarrow> 'v jsprop" where
  "obj_get obj k =
     (case obj k of
        Some v \<Rightarrow> Own v
      | None \<Rightarrow> if k \<in> set object_prototype_keys then Inherited else Undefined)"

text \<open>\<open>typeof v !== 'undefined'\<close>\<close>

definition is_defined :: "'v jsprop \<Rightarrow> bool" where
  "is_defined v = (v \<noteq> Undefined)"

text \<open>Strings are lists of character codes, compared code by code; \<open>sort\<close> on them
  is the order of \<open>Array.prototype.sort\<close> without a comparator.
  \<open>String.prototype.startsWith\<close> and \<open>String.prototype.endsWith\<close>:\<close>

definition startsWith :: "string \<Rightarrow> string \<Rightarrow> bool" where
  "startsWith s p = (take (length p) s = p)"

definition endsWith :: "string \<Rightarrow> string \<Rightarrow> bool" where
  "endsWith s p = (length p \<le> length s \<and> drop (length s - length p) s = p)"

text \<open>\<open>Array.prototype.join\<close> on an array of strings.\<close>

fun join :: "string \<Rightarrow> string list \<Rightarrow> string" where
  "join sep [] = []"
| "join sep [x] = x"
| "join sep (x # y # ys) = x @ sep @ join sep (y # ys)"

text \<open>A template literal prints \<open>null\<close> as the text \<open>null\<close>; the same text is the
  property key that \<open>obj[null]\<close> reads.\<close>

definition js_string :: "string option \<Rightarrow> string" where
  "js_string v = (case v of None \<Rightarrow> ''null'' | Some s \<Rightarrow> s)"

section \<open>The savegame snapshot pushed on \<open>fromMain_saveInfo\<close>\<close>

text \<open>\<open>thisMod.modDesc\<close> of an installed mod: the fields the handler reads.\<close>

record mod_desc =
  storeItems :: int
  scriptFiles :: int
  md_version :: "string option"

text \<open>One value of \<open>modCollect.modList[collection].mods\<close>. \<open>shortName\<close> is
  \<open>fileDetail.shortName\<close>, \<open>l10n_title\<close> is \<open>l10n.title\<close>; a \<open>uuid\<close> of \<open>None\<close> is
  \<open>null\<close> or \<open>undefined\<close>.\<close>

record mod_entry =
  shortName :: string
  uuid :: "string option"
  modDesc :: mod_desc
  l10n_title :: string

text \<open>One value of \<open>savegame.mods\<close>. \<open>farms\<close> is a \<open>Set\<close>, kept as the list of its
  members in insertion order; its \<open>size\<close> is positive exactly when the list is not empty.\<close>

record save_mod =
  sm_version :: "string option"
  sm_title :: string
  farms :: "string list"

text \<open>\<open>modCollect.opts.thisSaveGame\<close>. \<open>mods\<close> lists the own properties of
  \<open>savegame.mods\<close>; a read takes the first pair of a key.\<close>

record savegame =
  errorList :: "(string \<times> string) list"
  mods :: "(string \<times> save_mod) list"
  mapMod :: "string option"
  singleFarm :: bool

text \<open>The pushed \<open>modCollect\<close>: \<open>modList c\<close> is \<open>Object.values(modList[c].mods)\<close>,
  \<open>modHub\<close> is \<open>modHub.list.mods\<close>, \<open>thisSaveGame\<close> is \<open>opts.thisSaveGame\<close>.\<close>

record mod_collect =
  modList :: "string \<rightharpoonup> mod_entry list"
  modHub :: "string \<rightharpoonup> nat"
  thisSaveGame :: savegame

section \<open>The record derived for one mod name\<close>

record mod_detail =
  title :: "string option"
  version :: "string option"
  scriptOnly :: bool
  isLoaded :: bool
  isUsed :: bool
  isPresent :: bool
  isDLC :: bool
  usedBy :: "string list option"
  versionMismatch :: bool
  isModHub :: bool

text \<open>\<open>haveModSet\<close>: filled by \<open>haveModSet[thisMod.fileDetail.shortName] = thisMod\<close> for
  each installed mod in turn, a later mod of the same short name replacing an earlier
  one. (An assignment to the key \<open>__proto__\<close> re-parents the object instead of adding a
  property; a later read of that key still returns the assigned mod, as here. What the
  re-parented object would answer for keys that are fields of the mod object itself is
  not modelled.)\<close>

definition haveModSet_of :: "mod_entry list \<Rightarrow> (string \<rightharpoonup> mod_entry)" where
  "haveModSet_of installed = foldl (\<lambda>h thisMod. h(shortName thisMod \<mapsto> thisMod)) Map.empty installed"

text \<open>Lines 75 to 86 of savegame_ui.js: the fresh record.\<close>

definition detail_init :: "mod_collect \<Rightarrow> string \<Rightarrow> mod_detail" where
  "detail_init modCollect thisMod =
     \<lparr> title = None, version = None, scriptOnly = False, isLoaded = False,
       isUsed = False, isPresent = False, isDLC = False, usedBy = None,
       versionMismatch = False,
       isModHub = is_defined (obj_get (modHub modCollect) thisMod) \<rparr>"

text \<open>Lines 88 to 91.\<close>

definition detail_dlc :: "string \<Rightarrow> mod_detail \<Rightarrow> mod_detail" where
  "detail_dlc thisMod d =
     (if startsWith thisMod ''pdlc_'' then d\<lparr> isDLC := True, isPresent := True \<rparr> else d)"

text \<open>Lines 93 to 96.\<close>

definition detail_map :: "savegame \<Rightarrow> string \<Rightarrow> mod_detail \<Rightarrow> mod_detail" where
  "detail_map sg thisMod d =
     (if mapMod sg = Some thisMod then d\<lparr> isUsed := True, isLoaded := True \<rparr> else d)"

text \<open>Lines 98 to 107. An inherited member has no \<open>farms\<close>, so reading \<open>farms.size\<close>
  raises.\<close>

definition detail_save :: "savegame \<Rightarrow> string \<Rightarrow> mod_detail \<Rightarrow> error + mod_detail" where
  "detail_save sg thisMod d =
     (case obj_get (map_of (mods sg)) thisMod of
        Undefined \<Rightarrow> Inr d
      | Inherited \<Rightarrow> Inl TypeError
      | Own sm \<Rightarrow>
          (let d1 = d\<lparr> version := sm_version sm, title := Some (sm_title sm), isLoaded := True \<rparr>
           in Inr (if farms sm \<noteq> [] then d1\<lparr> isUsed := True, usedBy := Some (farms sm) \<rparr>
                   else d1)))"

text \<open>Lines 108 to 122. An inherited member has no \<open>modDesc\<close>, so reading
  \<open>modDesc.storeItems\<close> raises. \<open>escapeSpecial\<close> is \<open>fsgUtil.escapeSpecial\<close>, defined
  outside these files.\<close>

definition detail_have ::
  "(string \<Rightarrow> string) \<Rightarrow> (string \<rightharpoonup> mod_entry) \<Rightarrow> string \<Rightarrow> mod_detail \<Rightarrow> error + mod_detail" where
  "detail_have escapeSpecial haveModSet thisMod d =
     (case obj_get haveModSet thisMod of
        Undefined \<Rightarrow> Inr d
      | Inherited \<Rightarrow> Inl TypeError
      | Own have \<Rightarrow>
          (let d1 = d\<lparr> isPresent := True \<rparr>;
               d2 = (if storeItems (modDesc have) < 1 \<and> scriptFiles (modDesc have) > 0
                     then (let d' = d1\<lparr> scriptOnly := True \<rparr>
                           in if isLoaded d' then d'\<lparr> isUsed := True \<rparr> else d')
                     else d1);
               d3 = (if version d2 = None then d2\<lparr> version := md_version (modDesc have) \<rparr>
                     else if version d2 \<noteq> md_version (modDesc have)
                          then d2\<lparr> versionMismatch := True \<rparr>
                          else d2)
           in Inr (d3\<lparr> title := Some (escapeSpecial (l10n_title have)) \<rparr>)))"

text \<open>Lines 124 to 128.\<close>

definition detail_map_final :: "savegame \<Rightarrow> string \<Rightarrow> mod_detail \<Rightarrow> mod_detail" where
  "detail_map_final sg thisMod d =
     (if mapMod sg = Some thisMod then d\<lparr> isUsed := True, isLoaded := True, usedBy := None \<rparr>
      else d)"

text \<open>Lines 75 to 128 in sequence: \<open>thisModDetail\<close> as it stands at line 129, or the
  TypeError raised on the way.\<close>

definition thisModDetail_of ::
  "(string \<Rightarrow> string) \<Rightarrow> mod_collect \<Rightarrow> (string \<rightharpoonup> mod_entry) \<Rightarrow> string \<Rightarrow> error + mod_detail" where
  "thisModDetail_of escapeSpecial modCollect haveModSet thisMod =
     (let sg = thisSaveGame modCollect;
          d = detail_map sg thisMod (detail_dlc thisMod (detail_init modCollect thisMod))
      in case detail_save sg thisMod d of
           Inl e \<Rightarrow> Inl e
         | Inr d1 \<Rightarrow>
             (case detail_have escapeSpecial haveModSet thisMod d1 of
                Inl e \<Rightarrow> Inl e
              | Inr d2 \<Rightarrow> Inr (detail_map_final sg thisMod d2)))"

section \<open>One rendered list entry: \<open>makeLine\<close>\<close>

text \<open>The tallies of \<open>selectCount\<close> and the key lists of \<open>selectList\<close>.\<close>

record select_count =
  count_dlc :: nat
  count_missing :: nat
  count_scriptonly :: nat
  count_isloaded :: nat
  count_isused :: nat
  count_inactive :: nat
  count_unused :: nat
  count_nohub :: nat
  count_active :: nat

record select_list =
  list_inactive :: "string list"
  list_unused :: "string list"
  list_nohub :: "string list"
  list_active :: "string list"

text \<open>A call \<open>fsgUtil.badge(color, name, true)\<close>; the markup it returns is produced
  outside these files, so the call is kept with its arguments.\<close>

datatype badge = Badge (badge_color: string) (badge_name: string) (badge_fullName: bool)

text \<open>The argument object of \<open>fsgUtil.useTemplate('savegame_mod', ...)\<close>.\<close>

record savegame_mod =
  colorClass :: string
  hubID :: "nat jsprop"
  hubIDHide :: string
  tpl_name :: string
  tpl_title :: "string option"
  hideShowFarms :: string
  tpl_farms :: string
  badges :: "badge list"

text \<open>The \<open>switch (true)\<close> of lines 174 to 190: the first case that holds.\<close>

definition colorClass_of :: "mod_detail \<Rightarrow> string" where
  "colorClass_of m =
     (if \<not> isPresent m then ''list-group-item-danger''
      else if versionMismatch m then ''list-group-item-info''
      else if isUsed m then ''list-group-item-success''
      else if isLoaded m then ''list-group-item-warning''
      else ''list-group-item-secondary'')"

text \<open>\<open>displayBadge\<close> after lines 192 to 206; the loop over the four flag names is
  written out, each name in lower case as \<open>badge.toLowerCase()\<close> gives it.\<close>

definition displayBadge_of :: "mod_detail \<Rightarrow> (string \<times> string) list" where
  "displayBadge_of m =
     (if \<not> isModHub m \<and> \<not> isDLC m then [(''nohub'', ''info'')] else []) @
     (if isDLC m then [(''dlc'', ''info'')] else []) @
     (if \<not> isPresent m then [(''missing'', ''danger'')] else []) @
     (if \<not> isUsed m then [(''unused'', ''warning'')] else []) @
     (if \<not> isLoaded m then [(''inactive'', ''warning'')] else []) @
     (if versionMismatch m then [(''versionmismatch'', ''dark'')] else []) @
     (if scriptOnly m then [(''scriptonly'', ''dark'')] else []) @
     (if isUsed m then [(''isused'', ''dark'')] else []) @
     (if isLoaded m then [(''isloaded'', ''dark'')] else [])"

text \<open>The increments of \<open>selectCount\<close> made inside \<open>makeLine\<close>.\<close>

definition count_line :: "mod_detail \<Rightarrow> select_count \<Rightarrow> select_count" where
  "count_line m c =
     c\<lparr> count_dlc := count_dlc c + (if isDLC m then 1 else 0),
        count_missing := count_missing c + (if \<not> isPresent m then 1 else 0),
        count_scriptonly := count_scriptonly c + (if scriptOnly m then 1 else 0),
        count_isused := count_isused c + (if isUsed m then 1 else 0),
        count_isloaded := count_isloaded c + (if isLoaded m then 1 else 0) \<rparr>"

definition makeLine ::
  "string \<Rightarrow> mod_detail \<Rightarrow> bool \<Rightarrow> nat jsprop \<Rightarrow> select_count \<Rightarrow> savegame_mod \<times> select_count" where
  "makeLine nm m single hub c =
     (\<lparr> colorClass = colorClass_of m,
        hubID = hub,
        hubIDHide = (if is_defined hub then '''' else ''d-none''),
        tpl_name = nm,
        tpl_title = title m,
        hideShowFarms = (if usedBy m \<noteq> None \<and> \<not> single then '''' else ''d-none''),
        tpl_farms = (case usedBy m of None \<Rightarrow> '''' | Some fs \<Rightarrow> join '', '' fs),
        badges = map (\<lambda>part. Badge (snd part @ '' bg-gradient rounded-1 ms-1'')
                                     (''savegame_'' @ fst part) True)
                     (displayBadge_of m) \<rparr>,
      count_line m c)"

section \<open>The render pass of \<open>fromMain_saveInfo\<close>\<close>

text \<open>What \<open>#modList\<close> holds: the template calls whose results were joined into its
  content. \<open>Savegame_error\<close> carries the \<open>errors\<close> argument of the \<open>savegame_error\<close>
  template.\<close>

datatype entry = Savegame_error string | Savegame_mod savegame_mod

text \<open>The text inside a \<open>.quantity\<close> element: the page's own markup until
  \<open>updateCounts\<close> writes \<open>selectCount[labelName]\<close> into it.\<close>

datatype quantity = Markup string | Tally "nat jsprop"

text \<open>The state of the savegame window: the module variables \<open>thisCollection\<close>,
  \<open>selectList\<close> and \<open>selectCount\<close>; the content of \<open>#modList\<close>; the labels that carry
  a \<open>for\<close> attribute, each with the text of its \<open>.quantity\<close> child; and how often
  \<open>processL10N\<close> has run (it lives outside these files for this window).\<close>

record view_state =
  thisCollection :: "string option"
  selectList :: select_list
  selectCount :: select_count
  modList_content :: "entry list"
  quantity_labels :: "(string \<times> quantity) list"
  l10n_runs :: nat

text \<open>How a loop or a handler ends: it runs to its end, leaves by \<open>return\<close>, or raises.\<close>

datatype flow = Finished | Returned | Raised error

text \<open>\<open>String.prototype.replace\<close> with a string pattern: the first occurrence only.\<close>

fun replace_first :: "string \<Rightarrow> string \<Rightarrow> string \<Rightarrow> string" where
  "replace_first pat rep [] = (if pat = [] then rep else [])"
| "replace_first pat rep (c # cs) =
     (if startsWith (c # cs) pat then rep @ drop (length pat) (c # cs)
      else c # replace_first pat rep cs)"

text \<open>\<open>selectCount[labelName]\<close>.\<close>

definition selectCount_get :: "select_count \<Rightarrow> string \<Rightarrow> nat jsprop" where
  "selectCount_get c labelName =
     obj_get (map_of
       [(''dlc'', count_dlc c), (''missing'', count_missing c),
        (''scriptonly'', count_scriptonly c), (''isloaded'', count_isloaded c),
        (''isused'', count_isused c), (''inactive'', count_inactive c),
        (''unused'', count_unused c), (''nohub'', count_nohub c),
        (''active'', count_active c)]) labelName"

text \<open>\<open>updateCounts\<close>: every label whose \<open>for\<close> starts with \<open>check_savegame\<close>.\<close>

definition updateCounts :: "select_count \<Rightarrow> (string \<times> quantity) list \<Rightarrow> (string \<times> quantity) list" where
  "updateCounts c labels =
     map (\<lambda>(lfor, q).
            if startsWith lfor ''check_savegame''
            then (lfor, Tally (selectCount_get c (replace_first ''check_savegame_'' [] lfor)))
            else (lfor, q)) labels"

text \<open>Lines 45 to 58.\<close>

definition reset_select :: "view_state \<Rightarrow> view_state" where
  "reset_select s =
     s\<lparr> selectList := \<lparr> list_inactive = [], list_unused = [], list_nohub = [], list_active = [] \<rparr>,
        selectCount := \<lparr> count_dlc = 0, count_missing = 0, count_scriptonly = 0,
                          count_isloaded = 0, count_isused = 0, count_inactive = 0,
                          count_unused = 0, count_nohub = 0, count_active = 0 \<rparr> \<rparr>"

text \<open>Lines 60 to 64: \<open>modSetHTML\<close> before the loop.\<close>

definition error_text :: "string \<times> string \<Rightarrow> string" where
  "error_text e = ''<l10n name=\"'' @ fst e @ ''\"></l10n> '' @ snd e"

definition error_entries :: "savegame \<Rightarrow> entry list" where
  "error_entries sg =
     (if length (errorList sg) > 0
      then [Savegame_error (join '', '' (map error_text (errorList sg)))]
      else [])"

text \<open>Lines 130 to 145: \<open>thisUUID\<close> and the pushes onto \<open>selectList\<close>.\<close>

definition thisUUID_of :: "(string \<rightharpoonup> mod_entry) \<Rightarrow> string \<Rightarrow> string option" where
  "thisUUID_of haveModSet thisMod =
     (case obj_get haveModSet thisMod of Own have \<Rightarrow> uuid have | _ \<Rightarrow> None)"

definition select_push :: "string option \<Rightarrow> string option \<Rightarrow> mod_detail \<Rightarrow> select_list \<Rightarrow> select_list" where
  "select_push coll thisUUID d l =
     (case thisUUID of
        None \<Rightarrow> l
      | Some u \<Rightarrow>
          (let k = js_string coll @ ''--'' @ u
           in l\<lparr> list_unused := list_unused l @ (if \<not> isUsed d then [k] else []),
                 list_inactive := list_inactive l @ (if \<not> isLoaded d then [k] else []),
                 list_nohub := list_nohub l @ (if \<not> isModHub d then [k] else []),
                 list_active := list_active l @ (if isLoaded d then [k] else []) \<rparr>))"

text \<open>Lines 75 to 147 for one name that does not end the pass: the record, the
  selection keys, the rendered line.\<close>

definition mod_step ::
  "(string \<Rightarrow> string) \<Rightarrow> mod_collect \<Rightarrow> (string \<rightharpoonup> mod_entry) \<Rightarrow> string \<Rightarrow>
     view_state \<times> entry list \<Rightarrow> error + (view_state \<times> entry list)" where
  "mod_step escapeSpecial modCollect haveModSet thisMod sh =
     (case thisModDetail_of escapeSpecial modCollect haveModSet thisMod of
        Inl e \<Rightarrow> Inl e
      | Inr d \<Rightarrow>
          (let s = fst sh;
               s1 = s\<lparr> selectList :=
                         select_push (thisCollection s) (thisUUID_of haveModSet thisMod) d (selectList s) \<rparr>;
               lc = makeLine thisMod d (singleFarm (thisSaveGame modCollect))
                      (obj_get (modHub modCollect) thisMod) (selectCount s1)
           in Inr (s1\<lparr> selectCount := snd lc \<rparr>, snd sh @ [Savegame_mod (fst lc)])))"

text \<open>The loop of lines 73 to 148 over the sorted names, with the state and
  \<open>modSetHTML\<close> as they stand when it is left.\<close>

fun mod_loop ::
  "(string \<Rightarrow> string) \<Rightarrow> mod_collect \<Rightarrow> (string \<rightharpoonup> mod_entry) \<Rightarrow> string list \<Rightarrow>
     view_state \<times> entry list \<Rightarrow> flow \<times> view_state \<times> entry list" where
  "mod_loop escapeSpecial modCollect haveModSet [] sh = (Finished, sh)"
| "mod_loop escapeSpecial modCollect haveModSet (thisMod # rest) sh =
     (if endsWith thisMod ''.csv'' then (Returned, sh)
      else case mod_step escapeSpecial modCollect haveModSet thisMod sh of
             Inl e \<Rightarrow> (Raised e, sh)
           | Inr sh' \<Rightarrow> mod_loop escapeSpecial modCollect haveModSet rest sh')"

text \<open>\<open>Array.from(fullModSet).sort()\<close>: the short names of the installed mods and the
  keys of \<open>savegame.mods\<close>, each once, in the order of their character codes.\<close>

definition sorted_names :: "savegame \<Rightarrow> mod_entry list \<Rightarrow> string list" where
  "sorted_names sg installed = sort (remdups (map shortName installed @ map fst (mods sg)))"

text \<open>Lines 40 to 148. Reading \<open>modList[thisCollection].mods\<close> raises unless the
  collection is an own property of \<open>modList\<close>.\<close>

definition saveInfo_loop ::
  "(string \<Rightarrow> string) \<Rightarrow> mod_collect \<Rightarrow> view_state \<Rightarrow> flow \<times> view_state \<times> entry list" where
  "saveInfo_loop escapeSpecial modCollect s =
     (let sg = thisSaveGame modCollect;
          s1 = reset_select s;
          modSetHTML = error_entries sg
      in case obj_get (modList modCollect) (js_string (thisCollection s1)) of
           Own installed \<Rightarrow>
             mod_loop escapeSpecial modCollect (haveModSet_of installed)
               (sorted_names sg installed) (s1, modSetHTML)
         | _ \<Rightarrow> (Raised TypeError, s1, modSetHTML))"

text \<open>Lines 150 to 158.\<close>

definition finish_pass :: "entry list \<Rightarrow> view_state \<Rightarrow> view_state" where
  "finish_pass modSetHTML s =
     (let l = selectList s;
          c = (selectCount s)\<lparr> count_nohub := length (list_nohub l),
                                count_inactive := length (list_inactive l),
                                count_unused := length (list_unused l),
                                count_active := length (list_active l) \<rparr>
      in s\<lparr> modList_content := modSetHTML,
            selectCount := c,
            quantity_labels := updateCounts c (quantity_labels s),
            l10n_runs := Suc (l10n_runs s) \<rparr>)"

text \<open>The whole handler.\<close>

definition fromMain_saveInfo ::
  "(string \<Rightarrow> string) \<Rightarrow> mod_collect \<Rightarrow> view_state \<Rightarrow> flow \<times> view_state" where
  "fromMain_saveInfo escapeSpecial modCollect s =
     (case saveInfo_loop escapeSpecial modCollect s of
        (Finished, s', modSetHTML) \<Rightarrow> (Finished, finish_pass modSetHTML s')
      | (fl, s', modSetHTML) \<Rightarrow> (fl, s'))"

section \<open>Client-side filtering: \<open>clientChangeFilter\<close>\<close>

text \<open>A \<open>.mod-item\<close> element of the page: the \<open>name\<close> attributes found inside it (what
  \<open>querySelector\<close> with a \<open>[name=...]\<close> selector can match) and whether it carries
  the class \<open>d-none\<close>. A checkbox of the page: its id, whether it has the class
  \<open>filter_only\<close>, and whether it is checked.\<close>

record mod_item =
  named :: "string list"
  d_none :: bool

record checkbox =
  cb_id :: string
  filter_only :: bool
  checked :: bool

definition filters :: "string list" where
  "filters = [''dlc'', ''missing'', ''scriptonly'', ''isloaded'', ''isused'', ''inactive'',
              ''unused'', ''nohub'']"

text \<open>\<open>fsgUtil.byId(id).checked\<close>: the first element of that id; none raises.\<close>

definition byId_checked :: "checkbox list \<Rightarrow> string \<Rightarrow> error + bool" where
  "byId_checked boxes i =
     (case find (\<lambda>b. cb_id b = i) boxes of
        None \<Rightarrow> Inl TypeError
      | Some b \<Rightarrow> Inr (checked b))"

text \<open>The \<open>filters.filter(...)\<close> of line 235, reading each \<open>check_savegame_\<close> box.\<close>

fun activeFilters_of :: "checkbox list \<Rightarrow> string list \<Rightarrow> error + string list" where
  "activeFilters_of boxes [] = Inr []"
| "activeFilters_of boxes (k # ks) =
     (case byId_checked boxes (''check_savegame_'' @ k) of
        Inl e \<Rightarrow> Inl e
      | Inr c \<Rightarrow>
          (case activeFilters_of boxes ks of
             Inl e \<Rightarrow> Inl e
           | Inr r \<Rightarrow> Inr (if c then k # r else r)))"

text \<open>The inner loop of lines 238 to 244.\<close>

definition allBadgesFound :: "string list \<Rightarrow> mod_item \<Rightarrow> bool" where
  "allBadgesFound activeFilters modItem =
     list_all (\<lambda>thisFilter. (''savegame_'' @ thisFilter) \<in> set (named modItem)) activeFilters"

definition clientChangeFilter :: "checkbox list \<Rightarrow> mod_item list \<Rightarrow> error + mod_item list" where
  "clientChangeFilter boxes modItems =
     (let filtersActive = length (filter (\<lambda>b. filter_only b \<and> checked b) boxes)
      in if filtersActive = 0
         then Inr (map (\<lambda>modItem. modItem\<lparr> d_none := False \<rparr>) modItems)
         else (case activeFilters_of boxes filters of
                 Inl e \<Rightarrow> Inl e
               | Inr activeFilters \<Rightarrow>
                   Inr (map (\<lambda>modItem. modItem\<lparr> d_none := \<not> allBadgesFound activeFilters modItem \<rparr>)
                          modItems)))"

text \<open>For the handler not to raise, each of its eight filter ids must name a checkbox;
  \<open>filter_boxes_present\<close> says so and that the checkbox is of class \<open>filter_only\<close>.
  \<open>filter_checked\<close> reads one of them, and \<open>has_badge\<close> says that an entry holds the
  badge of a filter.\<close>

definition filter_boxes_present :: "checkbox list \<Rightarrow> bool" where
  "filter_boxes_present boxes =
     list_all (\<lambda>k. case find (\<lambda>b. cb_id b = ''check_savegame_'' @ k) boxes of
                      None \<Rightarrow> False
                    | Some b \<Rightarrow> filter_only b) filters"

definition filter_checked :: "checkbox list \<Rightarrow> string \<Rightarrow> bool" where
  "filter_checked boxes k = (byId_checked boxes (''check_savegame_'' @ k) = Inr True)"

definition has_badge :: "mod_item \<Rightarrow> string \<Rightarrow> bool" where
  "has_badge modItem k = ((''savegame_'' @ k) \<in> set (named modItem))"

text \<open>The filter checkboxes as the page of the savegame window has them (its markup is
  not among these files): no two checkboxes share an id, and the checkboxes of class
  \<open>filter_only\<close> are the eight named here. The badge that belongs to such a checkbox
  has the name \<open>savegame_\<close> followed by what follows \<open>check_savegame_\<close> in its id.\<close>

definition filter_page :: "checkbox list \<Rightarrow> bool" where
  "filter_page boxes =
     (distinct (map cb_id boxes) \<and>
      set (map cb_id (filter filter_only boxes)) =
        {''check_savegame_dlc'', ''check_savegame_missing'', ''check_savegame_scriptonly'',
         ''check_savegame_isloaded'', ''check_savegame_isused'', ''check_savegame_inactive'',
         ''check_savegame_unused'', ''check_savegame_nohub''})"

definition badge_of_box :: "checkbox \<Rightarrow> string" where
  "badge_of_box b = ''savegame_'' @ drop (length ''check_savegame_'') (cb_id b)"

section \<open>The notes window: \<open>clientSetNote\<close>\<close>

text \<open>A call \<open>window.mods.setNote(id, value, collection)\<close>, the message the controller
  hands to the bridge. A value of \<open>None\<close> is \<open>undefined\<close>, a collection of \<open>None\<close> is
  \<open>null\<close>.\<close>

datatype outbound = SetNote string "string option" "string option"

text \<open>The notes window: \<open>thisCollection\<close>; the elements of the page by id, each with
  its \<open>value\<close> (\<open>None\<close> for an element that has none); the calls made so far.\<close>

record notes_state =
  notes_thisCollection :: "string option"
  elements :: "string \<rightharpoonup> string option"
  outbox :: "outbound list"

definition clientSetNote :: "string \<Rightarrow> notes_state \<Rightarrow> error + notes_state" where
  "clientSetNote i s =
     (case elements s i of
        None \<Rightarrow> Inl TypeError
      | Some formControl_value \<Rightarrow>
          Inr (s\<lparr> outbox := outbox s @ [SetNote i formControl_value (notes_thisCollection s)] \<rparr>))"

section \<open>The preload bridges: \<open>receive\<close>\<close>

text \<open>The listeners of \<open>ipcRenderer\<close>, in the order of registration. A listener takes
  the event and the arguments.\<close>

type_synonym ('e, 'a, 'r) registry = "(string \<times> ('e \<Rightarrow> 'a list \<Rightarrow> 'r)) list"

definition ipcRenderer_on ::
  "string \<Rightarrow> ('e \<Rightarrow> 'a list \<Rightarrow> 'r) \<Rightarrow> ('e, 'a, 'r) registry \<Rightarrow> ('e, 'a, 'r) registry" where
  "ipcRenderer_on channel listener reg = reg @ [(channel, listener)]"

definition l10n_validChannels :: "string list" where
  "l10n_validChannels = [''fromMain_getText_return'', ''fromMain_l10n_refresh'']"

definition mods_validChannels :: "string list" where
  "mods_validChannels = [''fromMain_confirmList'']"

definition l10n_receive ::
  "string \<Rightarrow> ('a list \<Rightarrow> 'r) \<Rightarrow> ('e, 'a, 'r) registry \<Rightarrow> ('e, 'a, 'r) registry" where
  "l10n_receive channel func reg =
     (if channel \<in> set l10n_validChannels
      then ipcRenderer_on channel (\<lambda>event args. func args) reg
      else reg)"

definition mods_receive ::
  "string \<Rightarrow> ('a list \<Rightarrow> 'r) \<Rightarrow> ('e, 'a, 'r) registry \<Rightarrow> ('e, 'a, 'r) registry" where
  "mods_receive channel func reg =
     (if channel \<in> set mods_validChannels
      then ipcRenderer_on channel (\<lambda>event args. func args) reg
      else reg)"

section \<open>Views of a pass\<close>

text \<open>The names of the mod entries in a list of rendered entries, in order.\<close>

definition rendered_names :: "entry list \<Rightarrow> string list" where
  "rendered_names es =
     concat (map (\<lambda>e. case e of Savegame_mod ln \<Rightarrow> [tpl_name ln] | Savegame_error t \<Rightarrow> []) es)"

text \<open>The module variables a pass reads and writes.\<close>

definition select_state :: "view_state \<Rightarrow> string option \<times> select_list \<times> select_count" where
  "select_state s = (thisCollection s, selectList s, selectCount s)"

text \<open>What one pass yields: how the handler ends, \<open>modSetHTML\<close> as the loop leaves it
  (the records it rendered), and the selection lists and tallies afterwards.\<close>

definition pass_result ::
  "(string \<Rightarrow> string) \<Rightarrow> mod_collect \<Rightarrow> view_state \<Rightarrow> flow \<times> entry list \<times> select_list \<times> select_count" where
  "pass_result escapeSpecial modCollect s =
     (fst (fromMain_saveInfo escapeSpecial modCollect s),
      snd (snd (saveInfo_loop escapeSpecial modCollect s)),
      selectList (snd (fromMain_saveInfo escapeSpecial modCollect s)),
      selectCount (snd (fromMain_saveInfo escapeSpecial modCollect s)))"

section \<open>Sample data\<close>

text \<open>A collection \<open>col1\<close> of three installed mods and a savegame that records two of
  them, one being its map; a second savegame whose recorded mods include a name that
  ends in \<open>.csv\<close>; the page of the savegame window before any push.\<close>

definition ex_alpha :: mod_entry where
  "ex_alpha = \<lparr> shortName = ''FS22_alpha'', uuid = Some ''u-alpha'',
     modDesc = \<lparr> storeItems = 2, scriptFiles = 0, md_version = Some ''1.0.0.0'' \<rparr>,
     l10n_title = ''Alpha'' \<rparr>"

definition ex_script :: mod_entry where
  "ex_script = \<lparr> shortName = ''FS22_script'', uuid = Some ''u-script'',
     modDesc = \<lparr> storeItems = 0, scriptFiles = 3, md_version = Some ''2.0.0.0'' \<rparr>,
     l10n_title = ''Script'' \<rparr>"

definition ex_map :: mod_entry where
  "ex_map = \<lparr> shortName = ''FS22_map'', uuid = Some ''u-map'',
     modDesc = \<lparr> storeItems = 5, scriptFiles = 1, md_version = Some ''1.1.0.0'' \<rparr>,
     l10n_title = ''Map'' \<rparr>"

definition ex_savegame :: savegame where
  "ex_savegame = \<lparr> errorList = [],
     mods = [(''FS22_alpha'', \<lparr> sm_version = Some ''1.0.0.1'', sm_title = ''Alpha'', farms = [''1''] \<rparr>),
             (''FS22_map'', \<lparr> sm_version = Some ''1.1.0.0'', sm_title = ''Map'', farms = [''1'', ''2''] \<rparr>)],
     mapMod = Some ''FS22_map'', singleFarm = False \<rparr>"

definition ex_modCollect :: mod_collect where
  "ex_modCollect = \<lparr> modList = [''col1'' \<mapsto> [ex_alpha, ex_script, ex_map]],
     modHub = [''FS22_alpha'' \<mapsto> 101], thisSaveGame = ex_savegame \<rparr>"

definition ex_savegame_csv :: savegame where
  "ex_savegame_csv = \<lparr> errorList = [],
     mods = [(''FS22_script'', \<lparr> sm_version = Some ''2.0.0.0'', sm_title = ''Script'', farms = [] \<rparr>),
             (''FS22_stats.csv'', \<lparr> sm_version = None, sm_title = ''Stats'', farms = [] \<rparr>),
             (''FS22_zeta'', \<lparr> sm_version = Some ''1.0.0.0'', sm_title = ''Zeta'', farms = [''1''] \<rparr>)],
     mapMod = None, singleFarm = True \<rparr>"

definition ex_modCollect_csv :: mod_collect where
  "ex_modCollect_csv = \<lparr> modList = [''col1'' \<mapsto> [ex_script]],
     modHub = Map.empty, thisSaveGame = ex_savegame_csv \<rparr>"

definition ex_page :: view_state where
  "ex_page = \<lparr> thisCollection = Some ''col1'',
     selectList = \<lparr> list_inactive = [], list_unused = [], list_nohub = [], list_active = [] \<rparr>,
     selectCount = \<lparr> count_dlc = 0, count_missing = 0, count_scriptonly = 0,
                       count_isloaded = 0, count_isused = 0, count_inactive = 0,
                       count_unused = 0, count_nohub = 0, count_active = 0 \<rparr>,
     modList_content = [],
     quantity_labels = [(''check_savegame_isloaded'', Markup ''0''),
                        (''check_savegame_nohub'', Markup ''0'')],
     l10n_runs = 0 \<rparr>"

text \<open>A third push for the same collection: a savegame that records no mods and
  reports one error. The checkboxes of the page, with the filters \<open>missing\<close> and
  \<open>unused\<close> checked and one checked box that is no filter, and four list entries with
  their badge names.\<close>

definition ex_modCollect_empty :: mod_collect where
  "ex_modCollect_empty = \<lparr> modList = [''col1'' \<mapsto> [ex_script]],
     modHub = Map.empty,
     thisSaveGame = \<lparr> errorList = [(''SAVEGAME_UNREADABLE'', ''careerSavegame.xml'')],
                      mods = [], mapMod = None, singleFarm = True \<rparr> \<rparr>"

definition ex_boxes :: "checkbox list" where
  "ex_boxes =
     [\<lparr> cb_id = ''check_savegame_dlc'', filter_only = True, checked = False \<rparr>,
      \<lparr> cb_id = ''check_savegame_missing'', filter_only = True, checked = True \<rparr>,
      \<lparr> cb_id = ''check_savegame_scriptonly'', filter_only = True, checked = False \<rparr>,
      \<lparr> cb_id = ''check_savegame_isloaded'', filter_only = True, checked = False \<rparr>,
      \<lparr> cb_id = ''check_savegame_isused'', filter_only = True, checked = False \<rparr>,
      \<lparr> cb_id = ''check_savegame_inactive'', filter_only = True, checked = False \<rparr>,
      \<lparr> cb_id = ''check_savegame_unused'', filter_only = True, checked = True \<rparr>,
      \<lparr> cb_id = ''check_savegame_nohub'', filter_only = True, checked = False \<rparr>,
      \<lparr> cb_id = ''show_details'', filter_only = False, checked = True \<rparr>]"

definition ex_items :: "mod_item list" where
  "ex_items =
     [\<lparr> named = [''savegame_nohub'', ''savegame_missing'', ''savegame_unused'', ''savegame_inactive''],
        d_none = True \<rparr>,
      \<lparr> named = [''savegame_nohub'', ''savegame_unused'', ''savegame_inactive''], d_none = False \<rparr>,
      \<lparr> named = [''savegame_missing'', ''savegame_isused'', ''savegame_isloaded''], d_none = False \<rparr>,
      \<lparr> named = [''savegame_isused'', ''savegame_isloaded''], d_none = False \<rparr>]"

section \<open>Properties of the derived record\<close>

lemmas ex_defs = ex_alpha_def ex_script_def ex_map_def ex_savegame_def ex_modCollect_def
  ex_savegame_csv_def ex_modCollect_csv_def ex_page_def

lemma haveModSet_of_Nil: "haveModSet_of [] = Map.empty"
  by (simp add: haveModSet_of_def)

lemma haveModSet_of_snoc:
  "haveModSet_of (ms @ [m]) = (haveModSet_of ms)(shortName m \<mapsto> m)"
  by (simp add: haveModSet_of_def)

lemma haveModSet_of_shortName:
  "haveModSet_of ms k = Some m \<Longrightarrow> m \<in> set ms \<and> shortName m = k"
  by (induction ms rule: rev_induct)
     (auto simp: haveModSet_of_snoc haveModSet_of_Nil split: if_splits)

lemma pdlc_not_prototype_key: "startsWith k ''pdlc_'' \<Longrightarrow> k \<notin> set object_prototype_keys"
  by (auto simp: startsWith_def object_prototype_keys_def)

lemma detail_save_isPresent:
  "detail_save sg k d = Inr d' \<Longrightarrow> isPresent d' = isPresent d"
  by (auto simp: detail_save_def Let_def split: jsprop.splits if_splits)

lemma detail_have_isPresent:
  "detail_have esc hs k d = Inr d' \<Longrightarrow> isPresent d \<Longrightarrow> isPresent d'"
  by (auto simp: detail_have_def Let_def split: jsprop.splits if_splits)

lemma detail_save_total:
  "k \<notin> set object_prototype_keys \<Longrightarrow> \<exists>d'. detail_save sg k d = Inr d'"
  by (auto simp: detail_save_def obj_get_def Let_def split: option.splits)

lemma detail_have_total:
  "k \<notin> set object_prototype_keys \<Longrightarrow> \<exists>d'. detail_have esc hs k d = Inr d'"
  by (auto simp: detail_have_def obj_get_def Let_def split: option.splits)

text \<open>A record is derived for every name that is not a member of \<open>Object.prototype\<close>.\<close>

lemma thisModDetail_of_total:
  assumes "k \<notin> set object_prototype_keys"
  shows "\<exists>d. thisModDetail_of esc mc hs k = Inr d"
proof -
  let ?sg = "thisSaveGame mc"
  obtain d1 where
    d1: "detail_save ?sg k (detail_map ?sg k (detail_dlc k (detail_init mc k))) = Inr d1"
    using detail_save_total[OF assms] by blast
  obtain d2 where d2: "detail_have esc hs k d1 = Inr d2"
    using detail_have_total[OF assms] by blast
  show ?thesis
    by (simp add: thisModDetail_of_def Let_def d1 d2)
qed

lemma thisModDetail_of_Inl:
  "thisModDetail_of esc mc hs k = Inl e \<Longrightarrow> k \<in> set object_prototype_keys"
  using thisModDetail_of_total[of k esc mc hs] by auto

text \<open>
  Claim C2. The record derived for the name that equals the savegame's map mod has
  \<open>isUsed\<close> and \<open>isLoaded\<close> set and \<open>usedBy\<close> null, whatever the installed collection,
  the savegame entry and its farms hold. (No record is derived only when the handler
  raises, which needs the name to be a member of \<open>Object.prototype\<close>.)
\<close>

theorem mapMod_detail_used_loaded:
  "mapMod (thisSaveGame modCollect) = Some thisMod \<Longrightarrow>
   (case thisModDetail_of escapeSpecial modCollect haveModSet thisMod of
      Inr d \<Rightarrow> isUsed d \<and> isLoaded d \<and> usedBy d = None
    | Inl e \<Rightarrow> thisMod \<in> set object_prototype_keys)"
  by (auto simp: thisModDetail_of_Inl split: sum.splits)
     (auto simp: thisModDetail_of_def detail_map_final_def Let_def split: sum.splits)

theorem mapMod_detail_used_loaded_witness:
  "mapMod (thisSaveGame ex_modCollect) = Some ''FS22_map'' \<and>
   farms (the (map_of (mods (thisSaveGame ex_modCollect)) ''FS22_map'')) = [''1'', ''2''] \<and>
   (case thisModDetail_of (\<lambda>t. t) ex_modCollect
           (haveModSet_of [ex_alpha, ex_script, ex_map]) ''FS22_map'' of
      Inr d \<Rightarrow> isUsed d \<and> isLoaded d \<and> usedBy d = None
    | Inl e \<Rightarrow> False)"
proof -
  have m: "mapMod (thisSaveGame ex_modCollect) = Some ''FS22_map''"
    by (simp add: ex_defs)
  have k: "''FS22_map'' \<notin> set object_prototype_keys"
    by (simp add: object_prototype_keys_def)
  have f: "farms (the (map_of (mods (thisSaveGame ex_modCollect)) ''FS22_map'')) = [''1'', ''2'']"
    by (simp add: ex_defs)
  from mapMod_detail_used_loaded[OF m, of "\<lambda>t. t" "haveModSet_of [ex_alpha, ex_script, ex_map]"]
  show ?thesis using m k f by (auto split: sum.splits)
qed

text \<open>
  Claim C3. For a name that the installed collection and the savegame both hold, each
  with a version string, the derived record has \<open>versionMismatch\<close> set exactly when the
  two strings differ.
\<close>

theorem versionMismatch_iff_versions_differ:
  assumes "map_of (mods (thisSaveGame modCollect)) thisMod = Some sm"
      and "haveModSet_of installed thisMod = Some have"
      and "sm_version sm = Some v1"
      and "md_version (modDesc have) = Some v2"
  shows "\<exists>d. thisModDetail_of escapeSpecial modCollect (haveModSet_of installed) thisMod = Inr d
              \<and> versionMismatch d = (v1 \<noteq> v2)"
  using assms
  by (auto simp: thisModDetail_of_def detail_save_def detail_have_def detail_map_final_def
        detail_map_def detail_dlc_def detail_init_def obj_get_def Let_def)

theorem versionMismatch_iff_versions_differ_witness:
  "(\<exists>d. thisModDetail_of (\<lambda>t. t) ex_modCollect
           (haveModSet_of [ex_alpha, ex_script, ex_map]) ''FS22_alpha'' = Inr d
        \<and> versionMismatch d)
   \<and> (\<exists>d. thisModDetail_of (\<lambda>t. t) ex_modCollect
           (haveModSet_of [ex_alpha, ex_script, ex_map]) ''FS22_map'' = Inr d
        \<and> \<not> versionMismatch d)"
proof -
  let ?hs = "haveModSet_of [ex_alpha, ex_script, ex_map]"
  have a1: "map_of (mods (thisSaveGame ex_modCollect)) ''FS22_alpha''
              = Some \<lparr> sm_version = Some ''1.0.0.1'', sm_title = ''Alpha'', farms = [''1''] \<rparr>"
    by (simp add: ex_defs)
  have a2: "?hs ''FS22_alpha'' = Some ex_alpha"
    by (simp add: haveModSet_of_def ex_defs)
  have a4: "md_version (modDesc ex_alpha) = Some ''1.0.0.0''"
    by (simp add: ex_defs)
  have b1: "map_of (mods (thisSaveGame ex_modCollect)) ''FS22_map''
              = Some \<lparr> sm_version = Some ''1.1.0.0'', sm_title = ''Map'', farms = [''1'', ''2''] \<rparr>"
    by (simp add: ex_defs)
  have b2: "?hs ''FS22_map'' = Some ex_map"
    by (simp add: haveModSet_of_def ex_defs)
  have b4: "md_version (modDesc ex_map) = Some ''1.1.0.0''"
    by (simp add: ex_defs)
  from versionMismatch_iff_versions_differ[OF a1 a2 _ a4, of "''1.0.0.1''" "\<lambda>t. t"]
       versionMismatch_iff_versions_differ[OF b1 b2 _ b4, of "''1.1.0.0''" "\<lambda>t. t"]
  show ?thesis by simp
qed

lemma thisModDetail_of_pdlc_isPresent:
  assumes "startsWith k ''pdlc_''" and "thisModDetail_of esc mc hs k = Inr d"
  shows "isPresent d"
proof -
  let ?sg = "thisSaveGame mc"
  let ?d0 = "detail_map ?sg k (detail_dlc k (detail_init mc k))"
  have p0: "isPresent ?d0"
    using assms(1) by (simp add: detail_map_def detail_dlc_def)
  from assms(2) obtain d1 d2 where
    d1: "detail_save ?sg k ?d0 = Inr d1" and d2: "detail_have esc hs k d1 = Inr d2"
    and d: "d = detail_map_final ?sg k d2"
    by (auto simp: thisModDetail_of_def Let_def split: sum.splits)
  have "isPresent d1" using detail_save_isPresent[OF d1] p0 by simp
  then have "isPresent d2" using detail_have_isPresent[OF d2] by simp
  then show ?thesis by (simp add: d detail_map_final_def)
qed

lemma missing_badge_iff:
  "''savegame_missing'' \<in> badge_name ` set (badges (fst (makeLine nm d single hub c)))
     \<longleftrightarrow> \<not> isPresent d"
  by (auto simp: makeLine_def displayBadge_of_def)

text \<open>
  Claim C10. For a name that starts with \<open>pdlc_\<close> a record is always derived, and it
  has \<open>isPresent\<close> set, whether or not the installed collection or the savegame hold
  the name; the line rendered from it carries no \<open>missing\<close> badge, is not of the danger
  colour class, and leaves the \<open>missing\<close> tally as it was.
\<close>

theorem pdlc_detail_never_missing:
  assumes "startsWith thisMod ''pdlc_''"
  shows "\<exists>d. thisModDetail_of escapeSpecial modCollect haveModSet thisMod = Inr d
              \<and> isPresent d
              \<and> ''savegame_missing''
                   \<notin> badge_name ` set (badges (fst (makeLine thisMod d single hub c)))
              \<and> colorClass (fst (makeLine thisMod d single hub c)) \<noteq> ''list-group-item-danger''
              \<and> count_missing (snd (makeLine thisMod d single hub c)) = count_missing c"
proof -
  obtain d where d: "thisModDetail_of escapeSpecial modCollect haveModSet thisMod = Inr d"
    using thisModDetail_of_total[OF pdlc_not_prototype_key[OF assms]] by blast
  have p: "isPresent d" by (rule thisModDetail_of_pdlc_isPresent[OF assms d])
  have "colorClass (fst (makeLine thisMod d single hub c)) \<noteq> ''list-group-item-danger''"
    using p by (simp add: makeLine_def colorClass_of_def)
  moreover have "count_missing (snd (makeLine thisMod d single hub c)) = count_missing c"
    using p by (simp add: makeLine_def count_line_def)
  ultimately show ?thesis using d p missing_badge_iff[of thisMod d single hub c] by blast
qed

theorem pdlc_detail_never_missing_witness:
  "map_of (mods (thisSaveGame ex_modCollect)) ''pdlc_pack'' = None \<and>
   haveModSet_of [ex_alpha, ex_script, ex_map] ''pdlc_pack'' = None \<and>
   (\<exists>d. thisModDetail_of (\<lambda>t. t) ex_modCollect
           (haveModSet_of [ex_alpha, ex_script, ex_map]) ''pdlc_pack'' = Inr d
         \<and> isPresent d
         \<and> ''savegame_missing''
              \<notin> badge_name ` set (badges (fst (makeLine ''pdlc_pack'' d False Undefined
                                                  (selectCount ex_page))))
         \<and> colorClass (fst (makeLine ''pdlc_pack'' d False Undefined (selectCount ex_page)))
              \<noteq> ''list-group-item-danger''
         \<and> count_missing (snd (makeLine ''pdlc_pack'' d False Undefined (selectCount ex_page)))
              = 0)"
proof -
  have p: "startsWith ''pdlc_pack'' ''pdlc_''"
    by (simp add: startsWith_def)
  have n1: "map_of (mods (thisSaveGame ex_modCollect)) ''pdlc_pack'' = None"
    by (simp add: ex_defs)
  have n2: "haveModSet_of [ex_alpha, ex_script, ex_map] ''pdlc_pack'' = None"
    by (simp add: haveModSet_of_def ex_defs)
  have c: "count_missing (selectCount ex_page) = 0"
    by (simp add: ex_defs)
  from pdlc_detail_never_missing[OF p, of "\<lambda>t. t" ex_modCollect
         "haveModSet_of [ex_alpha, ex_script, ex_map]" False Undefined "selectCount ex_page"]
  show ?thesis using n1 n2 c by simp
qed

section \<open>The notes controller\<close>

text \<open>
  Claim C7. An edit of a field that is an element of the page makes \<open>clientSetNote\<close>
  hand exactly one message to the bridge, made of the field's id, the value the field
  holds, and the current collection; nothing else of the window changes.
\<close>

theorem clientSetNote_sends_one_message:
  assumes "elements s i = Some v"
  shows "\<exists>s'. clientSetNote i s = Inr s'
               \<and> outbox s' = outbox s @ [SetNote i v (notes_thisCollection s)]
               \<and> length (outbox s') = length (outbox s) + 1
               \<and> elements s' = elements s
               \<and> notes_thisCollection s' = notes_thisCollection s"
  using assms by (simp add: clientSetNote_def)

theorem clientSetNote_sends_one_message_witness:
  "\<exists>s'. clientSetNote ''notes_username''
            \<lparr> notes_thisCollection = Some ''col1'',
              elements = [''notes_username'' \<mapsto> Some ''farmer''],
              outbox = [] \<rparr> = Inr s'
        \<and> outbox s' = [SetNote ''notes_username'' (Some ''farmer'') (Some ''col1'')]"
proof -
  let ?s = "\<lparr> notes_thisCollection = Some ''col1'',
              elements = [''notes_username'' \<mapsto> Some ''farmer''],
              outbox = [] \<rparr>"
  have e: "elements ?s ''notes_username'' = Some (Some ''farmer'')"
    by simp
  from clientSetNote_sends_one_message[OF e] show ?thesis by auto
qed

section \<open>The bridges\<close>

text \<open>
  Claim C8. A call of \<open>receive\<close> on either bridge registers a listener exactly when the
  channel is in that bridge's list of valid channels: then the one listener added is
  for that channel and passes the arguments, without the event, to the callback; for
  any other channel the listeners stay as they were.
\<close>

theorem receive_registers_iff_valid_channel:
  "(l10n_receive channel func reg = reg @ [(channel, \<lambda>event args. func args)])
      = (channel = ''fromMain_getText_return'' \<or> channel = ''fromMain_l10n_refresh'')
   \<and> (l10n_receive channel func reg = reg)
      = (\<not> (channel = ''fromMain_getText_return'' \<or> channel = ''fromMain_l10n_refresh''))
   \<and> (mods_receive channel func reg = reg @ [(channel, \<lambda>event args. func args)])
      = (channel = ''fromMain_confirmList'')
   \<and> (mods_receive channel func reg = reg) = (channel \<noteq> ''fromMain_confirmList'')"
  by (simp add: l10n_receive_def mods_receive_def ipcRenderer_on_def
        l10n_validChannels_def mods_validChannels_def)

section \<open>Properties of the render pass\<close>

lemma rendered_names_append [simp]:
  "rendered_names (xs @ ys) = rendered_names xs @ rendered_names ys"
  by (simp add: rendered_names_def)

lemma rendered_names_error_entries [simp]: "rendered_names (error_entries sg) = []"
  by (simp add: rendered_names_def error_entries_def)

lemma mod_step_frame:
  assumes "mod_step esc mc hs n (s, h) = Inr (s', h')"
  shows "thisCollection s' = thisCollection s \<and> modList_content s' = modList_content s
         \<and> quantity_labels s' = quantity_labels s \<and> l10n_runs s' = l10n_runs s
         \<and> (\<exists>ln. h' = h @ [Savegame_mod ln] \<and> tpl_name ln = n)"
  using assms
  by (auto simp: mod_step_def Let_def makeLine_def split: sum.splits)

lemma mod_loop_frame:
  "mod_loop esc mc hs ns (s, h) = (fl, s', h') \<Longrightarrow>
     thisCollection s' = thisCollection s \<and> modList_content s' = modList_content s
     \<and> quantity_labels s' = quantity_labels s \<and> l10n_runs s' = l10n_runs s"
proof (induction ns arbitrary: s h)
  case Nil
  then show ?case by simp
next
  case (Cons n ns)
  show ?case
  proof (cases "endsWith n ''.csv''")
    case True
    with Cons.prems show ?thesis by simp
  next
    case False
    show ?thesis
    proof (cases "mod_step esc mc hs n (s, h)")
      case (Inl e)
      with False Cons.prems show ?thesis by simp
    next
      case (Inr sh)
      obtain s1 h1 where sh: "sh = (s1, h1)" by (cases sh)
      from Inr False Cons.prems sh have "mod_loop esc mc hs ns (s1, h1) = (fl, s', h')"
        by simp
      from Cons.IH[OF this] mod_step_frame[OF Inr[unfolded sh]] show ?thesis by simp
    qed
  qed
qed

lemma mod_loop_names:
  "mod_loop esc mc hs ns (s, h) = (fl, s', h') \<Longrightarrow>
     \<exists>k \<le> length ns. rendered_names h' = rendered_names h @ take k ns
        \<and> (\<forall>n \<in> set (take k ns). \<not> endsWith n ''.csv'')
        \<and> (fl = Finished \<longrightarrow> k = length ns)"
proof (induction ns arbitrary: s h)
  case Nil
  then show ?case by simp
next
  case (Cons n ns)
  show ?case
  proof (cases "endsWith n ''.csv''")
    case True
    with Cons.prems have "h' = h" "fl = Returned" by simp_all
    then show ?thesis by (intro exI[of _ 0]) simp
  next
    case False
    show ?thesis
    proof (cases "mod_step esc mc hs n (s, h)")
      case (Inl e)
      with False Cons.prems have "h' = h" "fl = Raised e" by simp_all
      then show ?thesis by (intro exI[of _ 0]) simp
    next
      case (Inr sh)
      obtain s1 h1 where sh: "sh = (s1, h1)" by (cases sh)
      from Inr False Cons.prems sh have run: "mod_loop esc mc hs ns (s1, h1) = (fl, s', h')"
        by simp
      from mod_step_frame[OF Inr[unfolded sh]]
      have h1: "rendered_names h1 = rendered_names h @ [n]"
        by (auto simp: rendered_names_def)
      from Cons.IH[OF run] obtain k where k: "k \<le> length ns"
        "rendered_names h' = rendered_names h1 @ take k ns"
        "\<forall>n \<in> set (take k ns). \<not> endsWith n ''.csv''"
        "fl = Finished \<longrightarrow> k = length ns"
        by blast
      show ?thesis
        using k h1 False by (intro exI[of _ "Suc k"]) simp
    qed
  qed
qed

lemma sorted_names_sorted: "sorted (sorted_names sg installed) \<and> distinct (sorted_names sg installed)"
  by (simp add: sorted_names_def)

lemma take_sorted_less:
  assumes "sorted xs" "distinct xs" "x \<in> set xs" "x \<notin> set (take k xs)" "y \<in> set (take k xs)"
  shows "y < x"
proof -
  from assms(3) obtain i where i: "i < length xs" "xs ! i = x"
    by (auto simp: in_set_conv_nth)
  from assms(5) obtain j where j: "j < length (take k xs)" "take k xs ! j = y"
    by (auto simp: in_set_conv_nth)
  then have jk: "j < k" "j < length xs" "xs ! j = y" by simp_all
  have "\<not> i < k"
  proof
    assume "i < k"
    then have "take k xs ! i = x" using i by simp
    moreover have "i < length (take k xs)" using i \<open>i < k\<close> by simp
    ultimately have "x \<in> set (take k xs)" by (metis nth_mem)
    with assms(4) show False by simp
  qed
  then have "j < i" using jk by simp
  have "xs ! j \<le> xs ! i" using assms(1) \<open>j < i\<close> i(1) by (simp add: sorted_nth_mono)
  moreover have "xs ! j \<noteq> xs ! i"
    using assms(2) \<open>j < i\<close> i(1) jk(2) by (simp add: nth_eq_iff_index_eq)
  ultimately show ?thesis using i jk by simp
qed

lemma saveInfo_loop_Own:
  assumes "obj_get (modList mc) (js_string (thisCollection s)) = Own installed"
  shows "saveInfo_loop esc mc s =
           mod_loop esc mc (haveModSet_of installed) (sorted_names (thisSaveGame mc) installed)
             (reset_select s, error_entries (thisSaveGame mc))"
  using assms by (simp add: saveInfo_loop_def Let_def reset_select_def)

lemma saveInfo_loop_frame:
  "saveInfo_loop esc mc s = (fl, s', h') \<Longrightarrow>
     thisCollection s' = thisCollection s \<and> modList_content s' = modList_content s
     \<and> quantity_labels s' = quantity_labels s \<and> l10n_runs s' = l10n_runs s"
proof (cases "obj_get (modList mc) (js_string (thisCollection s))")
  case (Own installed)
  assume "saveInfo_loop esc mc s = (fl, s', h')"
  with saveInfo_loop_Own[OF Own] mod_loop_frame[of esc mc "haveModSet_of installed"
      "sorted_names (thisSaveGame mc) installed" "reset_select s" "error_entries (thisSaveGame mc)" fl s' h']
  show ?thesis by (simp add: reset_select_def)
qed (auto simp: saveInfo_loop_def Let_def reset_select_def)

lemma fromMain_saveInfo_unfinished:
  assumes "fst (saveInfo_loop esc mc s) \<noteq> Finished"
  shows "fst (fromMain_saveInfo esc mc s) = fst (saveInfo_loop esc mc s)
         \<and> snd (fromMain_saveInfo esc mc s) = fst (snd (saveInfo_loop esc mc s))"
  using assms
  by (cases "saveInfo_loop esc mc s"; cases "fst (saveInfo_loop esc mc s)")
     (auto simp: fromMain_saveInfo_def)

lemma fromMain_saveInfo_finished:
  assumes "saveInfo_loop esc mc s = (Finished, s', h')"
  shows "fromMain_saveInfo esc mc s = (Finished, finish_pass h' s')"
  using assms by (simp add: fromMain_saveInfo_def)

lemma fromMain_saveInfo_flow: "fst (fromMain_saveInfo esc mc s) = fst (saveInfo_loop esc mc s)"
  by (cases "saveInfo_loop esc mc s"; cases "fst (saveInfo_loop esc mc s)")
     (auto simp: fromMain_saveInfo_def)

lemma csv_name_not_finished:
  assumes own: "obj_get (modList mc) (js_string (thisCollection s)) = Own installed"
      and mem: "csv \<in> set (sorted_names (thisSaveGame mc) installed)"
      and csv: "endsWith csv ''.csv''"
  shows "fst (saveInfo_loop esc mc s) \<noteq> Finished
         \<and> (\<forall>n \<in> set (rendered_names (snd (snd (saveInfo_loop esc mc s)))). n < csv)"
proof -
  let ?ns = "sorted_names (thisSaveGame mc) installed"
  obtain fl s' h' where r: "saveInfo_loop esc mc s = (fl, s', h')"
    by (cases "saveInfo_loop esc mc s")
  with saveInfo_loop_Own[OF own] have
    "mod_loop esc mc (haveModSet_of installed) ?ns (reset_select s, error_entries (thisSaveGame mc)) = (fl, s', h')"
    by simp
  from mod_loop_names[OF this] obtain k where k: "k \<le> length ?ns"
    "rendered_names h' = take k ?ns"
    "\<forall>n \<in> set (take k ?ns). \<not> endsWith n ''.csv''"
    "fl = Finished \<longrightarrow> k = length ?ns"
    by auto
  have notin: "csv \<notin> set (take k ?ns)" using k(3) csv by blast
  have "fl \<noteq> Finished"
  proof
    assume "fl = Finished"
    with k(4) have "take k ?ns = ?ns" by simp
    with notin mem show False by simp
  qed
  moreover have "\<forall>n \<in> set (rendered_names h'). n < csv"
    using take_sorted_less[OF _ _ mem notin] sorted_names_sorted[of "thisSaveGame mc" installed] k(2)
    by auto
  ultimately show ?thesis by (simp add: r)
qed

lemma mod_step_total:
  assumes "n \<notin> set object_prototype_keys"
  shows "\<exists>s' ln. mod_step esc mc hs n (s, h) = Inr (s', h @ [Savegame_mod ln]) \<and> tpl_name ln = n"
proof -
  from thisModDetail_of_total[OF assms] obtain d where
    "thisModDetail_of esc mc hs n = Inr d" by blast
  then show ?thesis by (simp add: mod_step_def Let_def makeLine_def)
qed

lemma mod_loop_prefix:
  assumes "\<forall>n \<in> set pre. \<not> endsWith n ''.csv'' \<and> n \<notin> set object_prototype_keys"
  shows "\<exists>s' h'. mod_loop esc mc hs (pre @ rest) (s, h) = mod_loop esc mc hs rest (s', h')
                 \<and> rendered_names h' = rendered_names h @ pre"
  using assms
proof (induction pre arbitrary: s h)
  case Nil
  then show ?case by auto
next
  case (Cons n pre)
  then have n: "\<not> endsWith n ''.csv''" "n \<notin> set object_prototype_keys" by simp_all
  from mod_step_total[OF n(2)] obtain s1 ln where
    st: "mod_step esc mc hs n (s, h) = Inr (s1, h @ [Savegame_mod ln])" "tpl_name ln = n"
    by blast
  from Cons.prems have "\<forall>n \<in> set pre. \<not> endsWith n ''.csv'' \<and> n \<notin> set object_prototype_keys"
    by simp
  from Cons.IH[OF this, of s1 "h @ [Savegame_mod ln]"] obtain s' h' where
    "mod_loop esc mc hs (pre @ rest) (s1, h @ [Savegame_mod ln]) = mod_loop esc mc hs rest (s', h')"
    "rendered_names h' = rendered_names (h @ [Savegame_mod ln]) @ pre"
    by blast
  then show ?case using n st by (auto simp: rendered_names_def)
qed

lemma sorted_distinct_split:
  assumes "sorted xs" "distinct xs" "x \<in> set xs"
  shows "xs = filter (\<lambda>n. n < x) xs @ x # filter (\<lambda>n. x < n) xs"
proof -
  from assms(3) obtain ys zs where xs: "xs = ys @ x # zs" by (auto dest: split_list)
  from assms(1,2) xs have "\<forall>y \<in> set ys. y < x" "\<forall>z \<in> set zs. x < z"
    by (auto simp: sorted_append less_le)
  then have "filter (\<lambda>n. n < x) xs = ys" "filter (\<lambda>n. x < n) xs = zs"
    by (auto simp: xs filter_empty_conv intro!: filter_id_conv[THEN iffD2] dest: less_asym)
  with xs show ?thesis by simp
qed

lemma first_csv_returns:
  assumes own: "obj_get (modList mc) (js_string (thisCollection s)) = Own installed"
      and mem: "csv \<in> set (sorted_names (thisSaveGame mc) installed)"
      and csv: "endsWith csv ''.csv''"
      and pre: "\<forall>n \<in> set (sorted_names (thisSaveGame mc) installed).
                  n < csv \<longrightarrow> \<not> endsWith n ''.csv'' \<and> n \<notin> set object_prototype_keys"
  shows "fst (saveInfo_loop esc mc s) = Returned
         \<and> rendered_names (snd (snd (saveInfo_loop esc mc s)))
             = filter (\<lambda>n. n < csv) (sorted_names (thisSaveGame mc) installed)"
proof -
  let ?ns = "sorted_names (thisSaveGame mc) installed"
  let ?pre = "filter (\<lambda>n. n < csv) ?ns"
  let ?post = "filter (\<lambda>n. csv < n) ?ns"
  have split: "?ns = ?pre @ csv # ?post"
    using sorted_distinct_split[OF _ _ mem] sorted_names_sorted[of "thisSaveGame mc" installed]
    by blast
  have "\<forall>n \<in> set ?pre. \<not> endsWith n ''.csv'' \<and> n \<notin> set object_prototype_keys"
    using pre by simp
  from mod_loop_prefix[OF this, of esc mc "haveModSet_of installed" "csv # ?post"
         "reset_select s" "error_entries (thisSaveGame mc)"]
  obtain s' h' where
    "mod_loop esc mc (haveModSet_of installed) (?pre @ csv # ?post)
        (reset_select s, error_entries (thisSaveGame mc))
      = mod_loop esc mc (haveModSet_of installed) (csv # ?post) (s', h')"
    "rendered_names h' = ?pre"
    by auto
  then have "saveInfo_loop esc mc s = (Returned, s', h')" "rendered_names h' = ?pre"
    using saveInfo_loop_Own[OF own, of esc] split csv by simp_all
  then show ?thesis by simp
qed

text \<open>
  Claim C4. When the sorted union of names holds a name that ends in \<open>.csv\<close>, the loop
  does not run to its end, every record it generated is for a name sorted before that
  name, and the pass writes nothing into \<open>#modList\<close>. When no earlier name ends in
  \<open>.csv\<close> or is a member of \<open>Object.prototype\<close>, the loop leaves by \<open>return\<close> at
  that name with exactly the records of the names sorted before it.
\<close>

theorem csv_name_halts_record_generation:
  assumes "obj_get (modList modCollect) (js_string (thisCollection s)) = Own installed"
      and "csv \<in> set (sorted_names (thisSaveGame modCollect) installed)"
      and "endsWith csv ''.csv''"
  shows "fst (saveInfo_loop escapeSpecial modCollect s) \<noteq> Finished
         \<and> (\<forall>n \<in> set (rendered_names (snd (snd (saveInfo_loop escapeSpecial modCollect s)))). n < csv)
         \<and> modList_content (snd (fromMain_saveInfo escapeSpecial modCollect s)) = modList_content s
         \<and> ((\<forall>n \<in> set (sorted_names (thisSaveGame modCollect) installed).
                n < csv \<longrightarrow> \<not> endsWith n ''.csv'' \<and> n \<notin> set object_prototype_keys)
             \<longrightarrow> fst (saveInfo_loop escapeSpecial modCollect s) = Returned
                 \<and> rendered_names (snd (snd (saveInfo_loop escapeSpecial modCollect s)))
                     = filter (\<lambda>n. n < csv) (sorted_names (thisSaveGame modCollect) installed))"
proof -
  from csv_name_not_finished[OF assms] have
    nf: "fst (saveInfo_loop escapeSpecial modCollect s) \<noteq> Finished" and
    lt: "\<forall>n \<in> set (rendered_names (snd (snd (saveInfo_loop escapeSpecial modCollect s)))). n < csv"
    by simp_all
  obtain fl s' h' where r: "saveInfo_loop escapeSpecial modCollect s = (fl, s', h')"
    by (cases "saveInfo_loop escapeSpecial modCollect s")
  from fromMain_saveInfo_unfinished[OF nf] saveInfo_loop_frame[OF r] r
  have "modList_content (snd (fromMain_saveInfo escapeSpecial modCollect s)) = modList_content s"
    by simp
  with nf lt first_csv_returns[OF assms, of escapeSpecial] show ?thesis by blast
qed

theorem csv_name_halts_record_generation_witness:
  "obj_get (modList ex_modCollect_csv) (js_string (thisCollection ex_page)) = Own [ex_script]
   \<and> sorted_names (thisSaveGame ex_modCollect_csv) [ex_script]
        = [''FS22_script'', ''FS22_stats.csv'', ''FS22_zeta'']
   \<and> endsWith ''FS22_stats.csv'' ''.csv''
   \<and> fst (saveInfo_loop id ex_modCollect_csv ex_page) = Returned
   \<and> rendered_names (snd (snd (saveInfo_loop id ex_modCollect_csv ex_page))) = [''FS22_script'']
   \<and> modList_content (snd (fromMain_saveInfo id ex_modCollect_csv ex_page)) = []"
proof -
  have own: "obj_get (modList ex_modCollect_csv) (js_string (thisCollection ex_page)) = Own [ex_script]"
    by code_simp
  have ns: "sorted_names (thisSaveGame ex_modCollect_csv) [ex_script]
              = [''FS22_script'', ''FS22_stats.csv'', ''FS22_zeta'']"
    by code_simp
  have mem: "''FS22_stats.csv'' \<in> set (sorted_names (thisSaveGame ex_modCollect_csv) [ex_script])"
    by (simp add: ns)
  have csv: "endsWith ''FS22_stats.csv'' ''.csv''"
    by code_simp
  have pre: "\<forall>n \<in> set (sorted_names (thisSaveGame ex_modCollect_csv) [ex_script]).
               n < ''FS22_stats.csv'' \<longrightarrow> \<not> endsWith n ''.csv'' \<and> n \<notin> set object_prototype_keys"
    by (simp add: ns endsWith_def object_prototype_keys_def)
  have flt: "filter (\<lambda>n. n < ''FS22_stats.csv'') [''FS22_script'', ''FS22_stats.csv'', ''FS22_zeta'']
               = [''FS22_script'']"
    by simp
  have page: "modList_content ex_page = []"
    by (simp add: ex_page_def)
  from csv_name_halts_record_generation[OF own mem csv, of id] pre
  show ?thesis using own ns csv flt page by simp
qed

text \<open>
  Claim C9. When the sorted union of names holds a name that ends in \<open>.csv\<close>, the
  pass does not reach its end: the content of \<open>#modList\<close> and the text of every
  \<open>.quantity\<close> element are what they were before the pass, and \<open>processL10N\<close> has
  not run.
\<close>

theorem csv_name_leaves_page_unchanged:
  assumes "obj_get (modList modCollect) (js_string (thisCollection s)) = Own installed"
      and "csv \<in> set (sorted_names (thisSaveGame modCollect) installed)"
      and "endsWith csv ''.csv''"
  shows "fst (fromMain_saveInfo escapeSpecial modCollect s) \<noteq> Finished
         \<and> modList_content (snd (fromMain_saveInfo escapeSpecial modCollect s)) = modList_content s
         \<and> quantity_labels (snd (fromMain_saveInfo escapeSpecial modCollect s)) = quantity_labels s
         \<and> l10n_runs (snd (fromMain_saveInfo escapeSpecial modCollect s)) = l10n_runs s"
proof -
  from csv_name_not_finished[OF assms] have
    nf: "fst (saveInfo_loop escapeSpecial modCollect s) \<noteq> Finished"
    by simp
  obtain fl s' h' where r: "saveInfo_loop escapeSpecial modCollect s = (fl, s', h')"
    by (cases "saveInfo_loop escapeSpecial modCollect s")
  from fromMain_saveInfo_unfinished[OF nf] saveInfo_loop_frame[OF r] r nf
  show ?thesis by simp
qed

theorem csv_name_leaves_page_unchanged_witness:
  "obj_get (modList ex_modCollect_csv)
      (js_string (thisCollection (snd (fromMain_saveInfo id ex_modCollect ex_page)))) = Own [ex_script]
   \<and> ''FS22_stats.csv'' \<in> set (sorted_names (thisSaveGame ex_modCollect_csv) [ex_script])
   \<and> endsWith ''FS22_stats.csv'' ''.csv''
   \<and> rendered_names (modList_content (snd (fromMain_saveInfo id ex_modCollect_csv
        (snd (fromMain_saveInfo id ex_modCollect ex_page)))))
        = [''FS22_alpha'', ''FS22_map'', ''FS22_script'']
   \<and> quantity_labels (snd (fromMain_saveInfo id ex_modCollect_csv
        (snd (fromMain_saveInfo id ex_modCollect ex_page))))
        = [(''check_savegame_isloaded'', Tally (Own 2)), (''check_savegame_nohub'', Tally (Own 2))]
   \<and> l10n_runs (snd (fromMain_saveInfo id ex_modCollect_csv
        (snd (fromMain_saveInfo id ex_modCollect ex_page)))) = 1"
proof -
  let ?s1 = "snd (fromMain_saveInfo id ex_modCollect ex_page)"
  have own: "obj_get (modList ex_modCollect_csv) (js_string (thisCollection ?s1)) = Own [ex_script]"
    by code_simp
  have mem: "''FS22_stats.csv'' \<in> set (sorted_names (thisSaveGame ex_modCollect_csv) [ex_script])"
    by code_simp
  have csv: "endsWith ''FS22_stats.csv'' ''.csv''"
    by code_simp
  have before: "rendered_names (modList_content ?s1) = [''FS22_alpha'', ''FS22_map'', ''FS22_script'']"
    "quantity_labels ?s1
       = [(''check_savegame_isloaded'', Tally (Own 2)), (''check_savegame_nohub'', Tally (Own 2))]"
    "l10n_runs ?s1 = 1"
    by code_simp+
  from csv_name_leaves_page_unchanged[OF own mem csv, of id]
  show ?thesis using own mem csv before by simp
qed

lemma mod_step_cong:
  assumes "select_state t = select_state s"
  shows "(case mod_step esc mc hs n (s, h) of
            Inl e \<Rightarrow> mod_step esc mc hs n (t, h) = Inl e
          | Inr (s', h') \<Rightarrow> \<exists>t'. mod_step esc mc hs n (t, h) = Inr (t', h')
                                 \<and> select_state t' = select_state s')"
  using assms
  by (auto simp: mod_step_def Let_def select_state_def split: sum.splits)

lemma mod_loop_cong:
  assumes "select_state t = select_state s"
      and "mod_loop esc mc hs ns (s, h) = (fl, s', h')"
  shows "\<exists>t'. mod_loop esc mc hs ns (t, h) = (fl, t', h') \<and> select_state t' = select_state s'"
  using assms
proof (induction ns arbitrary: s t h)
  case Nil
  then show ?case by simp
next
  case (Cons n ns)
  show ?case
  proof (cases "endsWith n ''.csv''")
    case True
    with Cons.prems show ?thesis by simp
  next
    case False
    show ?thesis
    proof (cases "mod_step esc mc hs n (s, h)")
      case (Inl e)
      with mod_step_cong[OF Cons.prems(1), of esc mc hs n h] False Cons.prems
      show ?thesis by simp
    next
      case (Inr sh)
      obtain s1 h1 where sh: "sh = (s1, h1)" by (cases sh)
      from mod_step_cong[OF Cons.prems(1), of esc mc hs n h] Inr sh obtain t1 where
        t1: "mod_step esc mc hs n (t, h) = Inr (t1, h1)" "select_state t1 = select_state s1"
        by auto
      from Inr sh False Cons.prems(2) have "mod_loop esc mc hs ns (s1, h1) = (fl, s', h')"
        by simp
      from Cons.IH[OF t1(2) this] t1(1) False show ?thesis by simp
    qed
  qed
qed

lemma saveInfo_loop_cong:
  assumes tc: "thisCollection t = thisCollection s"
      and run: "saveInfo_loop esc mc s = (fl, s', h')"
  shows "\<exists>t'. saveInfo_loop esc mc t = (fl, t', h') \<and> select_state t' = select_state s'"
proof -
  have rs: "select_state (reset_select t) = select_state (reset_select s)"
    using tc by (simp add: select_state_def reset_select_def)
  have tcr: "thisCollection (reset_select t) = thisCollection (reset_select s)"
    using tc by (simp add: reset_select_def)
  show ?thesis
  proof (cases "obj_get (modList mc) (js_string (thisCollection (reset_select s)))")
    case (Own installed)
    with run have "mod_loop esc mc (haveModSet_of installed)
        (sorted_names (thisSaveGame mc) installed) (reset_select s, error_entries (thisSaveGame mc)) = (fl, s', h')"
      by (simp add: saveInfo_loop_def Let_def)
    from mod_loop_cong[OF rs this] Own tcr show ?thesis
      by (simp add: saveInfo_loop_def Let_def)
  next
    case Undefined
    with run rs tcr show ?thesis by (auto simp: saveInfo_loop_def Let_def)
  next
    case Inherited
    with run rs tcr show ?thesis by (auto simp: saveInfo_loop_def Let_def)
  qed
qed

lemma finish_pass_select:
  "selectList (finish_pass h s) = selectList s"
  "thisCollection (finish_pass h s) = thisCollection s"
  "modList_content (finish_pass h s) = h"
  by (simp_all add: finish_pass_def Let_def)

lemma finish_pass_cong:
  assumes "select_state t = select_state s"
  shows "selectCount (finish_pass h t) = selectCount (finish_pass h s)"
  using assms by (simp add: finish_pass_def Let_def select_state_def)

lemma fromMain_saveInfo_thisCollection:
  "thisCollection (snd (fromMain_saveInfo esc mc s)) = thisCollection s"
proof -
  obtain fl s' h' where r: "saveInfo_loop esc mc s = (fl, s', h')"
    by (cases "saveInfo_loop esc mc s")
  from saveInfo_loop_frame[OF r] have tc: "thisCollection s' = thisCollection s" by simp
  show ?thesis
  proof (cases "fl = Finished")
    case True
    with r fromMain_saveInfo_finished[of esc mc s s' h'] tc show ?thesis
      by (simp add: finish_pass_select)
  next
    case False
    with r fromMain_saveInfo_unfinished[of esc mc s] tc show ?thesis by simp
  qed
qed

lemma pass_result_cong:
  assumes "thisCollection t = thisCollection s"
  shows "pass_result esc mc t = pass_result esc mc s"
proof -
  obtain fl s' h' where r: "saveInfo_loop esc mc s = (fl, s', h')"
    by (cases "saveInfo_loop esc mc s")
  from saveInfo_loop_cong[OF assms r] obtain t' where
    t: "saveInfo_loop esc mc t = (fl, t', h')" "select_state t' = select_state s'"
    by blast
  show ?thesis
  proof (cases "fl = Finished")
    case True
    with r t fromMain_saveInfo_finished[of esc mc s s' h'] fromMain_saveInfo_finished[of esc mc t t' h']
      finish_pass_cong[OF t(2), of h']
    show ?thesis by (simp add: pass_result_def finish_pass_select select_state_def)
  next
    case False
    with r t fromMain_saveInfo_unfinished[of esc mc s] fromMain_saveInfo_unfinished[of esc mc t]
    show ?thesis by (simp add: pass_result_def select_state_def)
  qed
qed

text \<open>
  Claim C6. What a pass yields (how it ends, the records it renders, the selection
  lists and the tallies) depends on the pushed snapshot and the current collection
  only, not on the lists, tallies or page content left by earlier passes; so a second
  pass on the same snapshot yields what the first did.
\<close>

theorem saveInfo_pass_deterministic:
  "(thisCollection t = thisCollection s \<longrightarrow>
       pass_result escapeSpecial modCollect t = pass_result escapeSpecial modCollect s)
   \<and> pass_result escapeSpecial modCollect (snd (fromMain_saveInfo escapeSpecial modCollect s))
       = pass_result escapeSpecial modCollect s"
  using pass_result_cong[of t s escapeSpecial modCollect]
        pass_result_cong[OF fromMain_saveInfo_thisCollection[of escapeSpecial modCollect s],
                         of escapeSpecial modCollect]
  by simp

theorem saveInfo_pass_deterministic_witness:
  "thisCollection (snd (fromMain_saveInfo id ex_modCollect_csv ex_page)) = thisCollection ex_page
   \<and> selectList (snd (fromMain_saveInfo id ex_modCollect_csv ex_page)) \<noteq> selectList ex_page
   \<and> pass_result id ex_modCollect (snd (fromMain_saveInfo id ex_modCollect_csv ex_page))
        = pass_result id ex_modCollect ex_page
   \<and> pass_result id ex_modCollect (snd (fromMain_saveInfo id ex_modCollect ex_page))
        = pass_result id ex_modCollect ex_page"
proof -
  let ?t = "snd (fromMain_saveInfo id ex_modCollect_csv ex_page)"
  have tc: "thisCollection ?t = thisCollection ex_page"
    by code_simp
  have ne: "selectList ?t \<noteq> selectList ex_page"
    by code_simp
  from saveInfo_pass_deterministic[of ?t ex_page id ex_modCollect] tc ne
  show ?thesis by simp
qed

lemma updateCounts_twice: "updateCounts c (updateCounts c' ls) = updateCounts c ls"
  by (induction ls) (auto simp: updateCounts_def)

lemma fromMain_saveInfo_labels:
  "quantity_labels (snd (fromMain_saveInfo esc mc s)) = quantity_labels s
   \<or> (\<exists>c. quantity_labels (snd (fromMain_saveInfo esc mc s)) = updateCounts c (quantity_labels s))"
proof -
  obtain fl s' h' where r: "saveInfo_loop esc mc s = (fl, s', h')"
    by (cases "saveInfo_loop esc mc s")
  from saveInfo_loop_frame[OF r] have q: "quantity_labels s' = quantity_labels s" by simp
  show ?thesis
  proof (cases "fl = Finished")
    case True
    with r fromMain_saveInfo_finished[of esc mc s s' h'] q show ?thesis
      by (auto simp: finish_pass_def Let_def)
  next
    case False
    with r fromMain_saveInfo_unfinished[of esc mc s] q show ?thesis by simp
  qed
qed

text \<open>A pass runs to its end when the current collection is a property of \<open>modList\<close>
  and no name of the sorted union ends in \<open>.csv\<close> or is a member of
  \<open>Object.prototype\<close>; the list then holds one entry for each name, in order.\<close>

lemma pass_finishes:
  assumes own: "obj_get (modList mc) (js_string (thisCollection s)) = Own installed"
      and ok: "\<forall>n \<in> set (sorted_names (thisSaveGame mc) installed).
                 \<not> endsWith n ''.csv'' \<and> n \<notin> set object_prototype_keys"
  shows "fst (fromMain_saveInfo esc mc s) = Finished
         \<and> rendered_names (modList_content (snd (fromMain_saveInfo esc mc s)))
             = sorted_names (thisSaveGame mc) installed"
proof -
  let ?ns = "sorted_names (thisSaveGame mc) installed"
  from mod_loop_prefix[OF ok, of esc mc "haveModSet_of installed" "[]"
         "reset_select s" "error_entries (thisSaveGame mc)"]
  obtain s' h' where
    "mod_loop esc mc (haveModSet_of installed) ?ns (reset_select s, error_entries (thisSaveGame mc))
       = (Finished, s', h')"
    "rendered_names h' = ?ns"
    by auto
  then have "saveInfo_loop esc mc s = (Finished, s', h')" "rendered_names h' = ?ns"
    using saveInfo_loop_Own[OF own, of esc] by simp_all
  then show ?thesis
    using fromMain_saveInfo_finished[of esc mc s s' h'] by (simp add: finish_pass_select)
qed

text \<open>After a pass that ran to its end, the four selection tallies are the lengths of
  the selection lists.\<close>

lemma finished_counts_match_lists:
  assumes "fst (fromMain_saveInfo esc mc s) = Finished"
  shows "count_nohub (selectCount (snd (fromMain_saveInfo esc mc s)))
           = length (list_nohub (selectList (snd (fromMain_saveInfo esc mc s))))
       \<and> count_inactive (selectCount (snd (fromMain_saveInfo esc mc s)))
           = length (list_inactive (selectList (snd (fromMain_saveInfo esc mc s))))
       \<and> count_unused (selectCount (snd (fromMain_saveInfo esc mc s)))
           = length (list_unused (selectList (snd (fromMain_saveInfo esc mc s))))
       \<and> count_active (selectCount (snd (fromMain_saveInfo esc mc s)))
           = length (list_active (selectList (snd (fromMain_saveInfo esc mc s))))"
proof -
  obtain fl s' h' where r: "saveInfo_loop esc mc s = (fl, s', h')"
    by (cases "saveInfo_loop esc mc s")
  with assms have "fl = Finished" by (simp add: fromMain_saveInfo_flow)
  with r fromMain_saveInfo_finished[of esc mc s s' h'] show ?thesis
    by (simp add: finish_pass_def Let_def)
qed

lemma finished_pass_replaces_page:
  assumes "fst (fromMain_saveInfo escapeSpecial second
                  (snd (fromMain_saveInfo escapeSpecial first s))) = Finished"
  shows "selectList (snd (fromMain_saveInfo escapeSpecial second (snd (fromMain_saveInfo escapeSpecial first s))))
           = selectList (snd (fromMain_saveInfo escapeSpecial second s))
       \<and> selectCount (snd (fromMain_saveInfo escapeSpecial second (snd (fromMain_saveInfo escapeSpecial first s))))
           = selectCount (snd (fromMain_saveInfo escapeSpecial second s))
       \<and> modList_content (snd (fromMain_saveInfo escapeSpecial second (snd (fromMain_saveInfo escapeSpecial first s))))
           = modList_content (snd (fromMain_saveInfo escapeSpecial second s))
       \<and> quantity_labels (snd (fromMain_saveInfo escapeSpecial second (snd (fromMain_saveInfo escapeSpecial first s))))
           = quantity_labels (snd (fromMain_saveInfo escapeSpecial second s))
       \<and> fst (fromMain_saveInfo escapeSpecial second s) = Finished"
proof -
  let ?s1 = "snd (fromMain_saveInfo escapeSpecial first s)"
  have tc: "thisCollection ?s1 = thisCollection s"
    by (rule fromMain_saveInfo_thisCollection)
  obtain fl s1' h where r1: "saveInfo_loop escapeSpecial second ?s1 = (fl, s1', h)"
    by (cases "saveInfo_loop escapeSpecial second ?s1")
  with assms have fl: "fl = Finished"
    by (simp add: fromMain_saveInfo_flow)
  from saveInfo_loop_cong[OF tc[symmetric] r1] obtain s' where
    r0: "saveInfo_loop escapeSpecial second s = (fl, s', h)" and
    st: "select_state s' = select_state s1'"
    by blast
  have p1: "fromMain_saveInfo escapeSpecial second ?s1 = (Finished, finish_pass h s1')"
    using fromMain_saveInfo_finished r1 fl by simp
  have p0: "fromMain_saveInfo escapeSpecial second s = (Finished, finish_pass h s')"
    using fromMain_saveInfo_finished r0 fl by simp
  have q1: "quantity_labels s1' = quantity_labels ?s1"
    using saveInfo_loop_frame[OF r1] by simp
  have q0: "quantity_labels s' = quantity_labels s"
    using saveInfo_loop_frame[OF r0] by simp
  have c: "selectCount (finish_pass h s1') = selectCount (finish_pass h s')"
    using finish_pass_cong[OF st, of h] by simp
  have "quantity_labels (finish_pass h s1') = quantity_labels (finish_pass h s')"
  proof -
    let ?c = "selectCount (finish_pass h s')"
    have a: "quantity_labels (finish_pass h s') = updateCounts ?c (quantity_labels s)"
      by (simp add: finish_pass_def Let_def q0)
    have b: "quantity_labels (finish_pass h s1') = updateCounts ?c (quantity_labels ?s1)"
      using c by (simp add: finish_pass_def Let_def q1)
    from fromMain_saveInfo_labels[of escapeSpecial first s]
    have "updateCounts ?c (quantity_labels ?s1) = updateCounts ?c (quantity_labels s)"
      by (auto simp: updateCounts_twice)
    with a b show ?thesis by simp
  qed
  with c st show ?thesis
    by (simp add: p1 p0 finish_pass_select select_state_def)
qed

text \<open>
  Claim C1, as amended. For any two pushes in a row, the selection lists and the
  tallies of \<open>selectCount\<close> after the second pass are those that the second snapshot
  alone gives, however the second pass ends. When the second pass runs to its end, the
  content of \<open>#modList\<close> and the text of the \<open>.quantity\<close> elements are also those that
  the second snapshot alone gives: nothing of the first snapshot is left.
\<close>

theorem second_pass_replaces_first:
  "selectList (snd (fromMain_saveInfo escapeSpecial second (snd (fromMain_saveInfo escapeSpecial first s))))
     = selectList (snd (fromMain_saveInfo escapeSpecial second s))
   \<and> selectCount (snd (fromMain_saveInfo escapeSpecial second (snd (fromMain_saveInfo escapeSpecial first s))))
     = selectCount (snd (fromMain_saveInfo escapeSpecial second s))
   \<and> fst (fromMain_saveInfo escapeSpecial second (snd (fromMain_saveInfo escapeSpecial first s)))
     = fst (fromMain_saveInfo escapeSpecial second s)
   \<and> (fst (fromMain_saveInfo escapeSpecial second (snd (fromMain_saveInfo escapeSpecial first s)))
         = Finished
       \<longrightarrow> modList_content (snd (fromMain_saveInfo escapeSpecial second
                (snd (fromMain_saveInfo escapeSpecial first s))))
             = modList_content (snd (fromMain_saveInfo escapeSpecial second s))
           \<and> quantity_labels (snd (fromMain_saveInfo escapeSpecial second
                (snd (fromMain_saveInfo escapeSpecial first s))))
             = quantity_labels (snd (fromMain_saveInfo escapeSpecial second s)))"
proof -
  let ?s1 = "snd (fromMain_saveInfo escapeSpecial first s)"
  have "pass_result escapeSpecial second ?s1 = pass_result escapeSpecial second s"
    by (rule pass_result_cong[OF fromMain_saveInfo_thisCollection])
  then have always:
    "selectList (snd (fromMain_saveInfo escapeSpecial second ?s1))
       = selectList (snd (fromMain_saveInfo escapeSpecial second s))"
    "selectCount (snd (fromMain_saveInfo escapeSpecial second ?s1))
       = selectCount (snd (fromMain_saveInfo escapeSpecial second s))"
    "fst (fromMain_saveInfo escapeSpecial second ?s1) = fst (fromMain_saveInfo escapeSpecial second s)"
    by (simp_all add: pass_result_def)
  from always finished_pass_replaces_page[of escapeSpecial second first s]
  show ?thesis by simp
qed

theorem second_pass_replaces_first_witness:
  "fst (fromMain_saveInfo id ex_modCollect_csv (snd (fromMain_saveInfo id ex_modCollect ex_page)))
     = Returned
   \<and> selectList (snd (fromMain_saveInfo id ex_modCollect_csv
        (snd (fromMain_saveInfo id ex_modCollect ex_page))))
       = selectList (snd (fromMain_saveInfo id ex_modCollect_csv ex_page))
   \<and> selectCount (snd (fromMain_saveInfo id ex_modCollect_csv
        (snd (fromMain_saveInfo id ex_modCollect ex_page))))
       = selectCount (snd (fromMain_saveInfo id ex_modCollect_csv ex_page))
   \<and> list_active (selectList (snd (fromMain_saveInfo id ex_modCollect_csv
        (snd (fromMain_saveInfo id ex_modCollect ex_page))))) = [''col1--u-script'']
   \<and> fst (fromMain_saveInfo id ex_modCollect_empty (snd (fromMain_saveInfo id ex_modCollect ex_page)))
       = Finished
   \<and> modList_content (snd (fromMain_saveInfo id ex_modCollect_empty
        (snd (fromMain_saveInfo id ex_modCollect ex_page))))
       = modList_content (snd (fromMain_saveInfo id ex_modCollect_empty ex_page))
   \<and> quantity_labels (snd (fromMain_saveInfo id ex_modCollect_empty
        (snd (fromMain_saveInfo id ex_modCollect ex_page))))
       = quantity_labels (snd (fromMain_saveInfo id ex_modCollect_empty ex_page))
   \<and> rendered_names (modList_content (snd (fromMain_saveInfo id ex_modCollect_empty
        (snd (fromMain_saveInfo id ex_modCollect ex_page))))) = [''FS22_script'']"
proof -
  have r: "fst (fromMain_saveInfo id ex_modCollect_csv (snd (fromMain_saveInfo id ex_modCollect ex_page)))
             = Returned"
    by code_simp
  have a: "list_active (selectList (snd (fromMain_saveInfo id ex_modCollect_csv ex_page)))
             = [''col1--u-script'']"
    by code_simp
  have f: "fst (fromMain_saveInfo id ex_modCollect_empty
                  (snd (fromMain_saveInfo id ex_modCollect ex_page))) = Finished"
    by code_simp
  have n: "rendered_names (modList_content (snd (fromMain_saveInfo id ex_modCollect_empty ex_page)))
             = [''FS22_script'']"
    by code_simp
  from second_pass_replaces_first[of id ex_modCollect_csv ex_modCollect ex_page]
       second_pass_replaces_first[of id ex_modCollect_empty ex_modCollect ex_page]
       r a f n
  show ?thesis by simp
qed

text \<open>
  The claim as first stated, which has the list content and the displayed counters
  replaced by every second pass, fails when the second pass ends early. After a pass for
  \<open>ex_modCollect\<close> and a pass for \<open>ex_modCollect_csv\<close>, whose names are \<open>FS22_script\<close>,
  \<open>FS22_stats.csv\<close> and \<open>FS22_zeta\<close>, the list still shows the three entries of the
  first snapshot and the counters still show its tallies, while \<open>selectCount\<close> holds
  what the second pass counted before it returned.
\<close>

theorem csv_pass_keeps_previous_content:
  "fst (fromMain_saveInfo id ex_modCollect_csv (snd (fromMain_saveInfo id ex_modCollect ex_page)))
     = Returned
   \<and> sorted_names (thisSaveGame ex_modCollect_csv) [ex_script]
       = [''FS22_script'', ''FS22_stats.csv'', ''FS22_zeta'']
   \<and> rendered_names (modList_content (snd (fromMain_saveInfo id ex_modCollect_csv
        (snd (fromMain_saveInfo id ex_modCollect ex_page)))))
       = [''FS22_alpha'', ''FS22_map'', ''FS22_script'']
   \<and> quantity_labels (snd (fromMain_saveInfo id ex_modCollect_csv
        (snd (fromMain_saveInfo id ex_modCollect ex_page))))
       = [(''check_savegame_isloaded'', Tally (Own 2)), (''check_savegame_nohub'', Tally (Own 2))]
   \<and> count_isloaded (selectCount (snd (fromMain_saveInfo id ex_modCollect_csv
        (snd (fromMain_saveInfo id ex_modCollect ex_page))))) = 1
   \<and> count_nohub (selectCount (snd (fromMain_saveInfo id ex_modCollect_csv
        (snd (fromMain_saveInfo id ex_modCollect ex_page))))) = 0"
  by code_simp

section \<open>Properties of the filter\<close>

lemma find_box:
  assumes "find (\<lambda>b. cb_id b = i) boxes = Some b"
  shows "b \<in> set boxes \<and> cb_id b = i"
  using assms by (auto simp: find_Some_iff)

lemma filter_boxes_present_find:
  assumes "filter_boxes_present boxes" "k \<in> set filters"
  shows "\<exists>b. find (\<lambda>b. cb_id b = ''check_savegame_'' @ k) boxes = Some b \<and> filter_only b"
  using assms
  by (auto simp: filter_boxes_present_def list_all_iff split: option.splits)

lemma activeFilters_of_present:
  assumes "\<forall>k \<in> set ks. \<exists>b. find (\<lambda>b. cb_id b = ''check_savegame_'' @ k) boxes = Some b"
  shows "activeFilters_of boxes ks = Inr (filter (filter_checked boxes) ks)"
  using assms
  by (induction ks) (auto simp: byId_checked_def filter_checked_def)

lemma none_active_none_checked:
  assumes "filter_boxes_present boxes"
      and "length (filter (\<lambda>b. filter_only b \<and> checked b) boxes) = 0"
      and "k \<in> set filters"
  shows "\<not> filter_checked boxes k"
proof
  assume c: "filter_checked boxes k"
  from filter_boxes_present_find[OF assms(1,3)] obtain b where
    b: "find (\<lambda>b. cb_id b = ''check_savegame_'' @ k) boxes = Some b" "filter_only b"
    by blast
  with c have "checked b" by (simp add: filter_checked_def byId_checked_def)
  with b find_box[OF b(1)] have "b \<in> set (filter (\<lambda>b. filter_only b \<and> checked b) boxes)"
    by simp
  with assms(2) show False by simp
qed

lemma allBadgesFound_active:
  "allBadgesFound (filter (filter_checked boxes) ks) modItem
     = (\<forall>k \<in> set ks. filter_checked boxes k \<longrightarrow> has_badge modItem k)"
  by (auto simp: allBadgesFound_def has_badge_def list_all_iff)

lemma clientChangeFilter_by_filters:
  assumes "filter_boxes_present boxes"
  shows "\<exists>shown. clientChangeFilter boxes modItems = Inr shown
           \<and> length shown = length modItems
           \<and> (\<forall>i < length modItems.
                 named (shown ! i) = named (modItems ! i)
                 \<and> (\<not> d_none (shown ! i))
                     = (\<forall>k \<in> set filters. filter_checked boxes k \<longrightarrow> has_badge (modItems ! i) k))
           \<and> ((\<forall>k \<in> set filters. \<not> filter_checked boxes k) \<longrightarrow> (\<forall>modItem \<in> set shown. \<not> d_none modItem))"
proof (cases "length (filter (\<lambda>b. filter_only b \<and> checked b) boxes) = 0")
  case True
  have none: "\<forall>k \<in> set filters. \<not> filter_checked boxes k"
    using none_active_none_checked[OF assms True] by blast
  have "clientChangeFilter boxes modItems = Inr (map (\<lambda>modItem. modItem\<lparr> d_none := False \<rparr>) modItems)"
    using True by (simp add: clientChangeFilter_def)
  then show ?thesis using none by auto
next
  case False
  have "\<forall>k \<in> set filters. \<exists>b. find (\<lambda>b. cb_id b = ''check_savegame_'' @ k) boxes = Some b"
    using filter_boxes_present_find[OF assms] by blast
  from activeFilters_of_present[OF this]
  have r: "clientChangeFilter boxes modItems =
        Inr (map (\<lambda>modItem. modItem\<lparr> d_none :=
               \<not> allBadgesFound (filter (filter_checked boxes) filters) modItem \<rparr>) modItems)"
    using False by (simp add: clientChangeFilter_def Let_def)
  show ?thesis
    unfolding r by (auto simp: allBadgesFound_active)
qed

lemma find_distinct_id:
  assumes "distinct (map cb_id boxes)" "b \<in> set boxes"
  shows "find (\<lambda>x. cb_id x = cb_id b) boxes = Some b"
  using assms by (induction boxes) (auto simp: image_iff)

lemma filter_ids:
  "(\<lambda>k. ''check_savegame_'' @ k) ` set filters =
     {''check_savegame_dlc'', ''check_savegame_missing'', ''check_savegame_scriptonly'',
      ''check_savegame_isloaded'', ''check_savegame_isused'', ''check_savegame_inactive'',
      ''check_savegame_unused'', ''check_savegame_nohub''}"
  by (simp add: filters_def)

lemma filter_page_box_of_filter:
  assumes "filter_page boxes" "k \<in> set filters"
  shows "\<exists>b. find (\<lambda>b. cb_id b = ''check_savegame_'' @ k) boxes = Some b \<and> filter_only b
             \<and> b \<in> set boxes \<and> badge_of_box b = ''savegame_'' @ k"
proof -
  have "''check_savegame_'' @ k \<in> (\<lambda>k. ''check_savegame_'' @ k) ` set filters"
    using assms(2) by blast
  then have "''check_savegame_'' @ k \<in> set (map cb_id (filter filter_only boxes))"
    using assms(1) unfolding filter_ids filter_page_def by blast
  then obtain b where b: "b \<in> set boxes" "filter_only b" "cb_id b = ''check_savegame_'' @ k"
    by auto
  from assms(1) have d: "distinct (map cb_id boxes)" by (simp add: filter_page_def)
  from find_distinct_id[OF d b(1)] b show ?thesis
    by (auto simp: badge_of_box_def)
qed

lemma filter_page_filter_of_box:
  assumes "filter_page boxes" "b \<in> set boxes" "filter_only b"
  shows "\<exists>k \<in> set filters. cb_id b = ''check_savegame_'' @ k
             \<and> find (\<lambda>x. cb_id x = ''check_savegame_'' @ k) boxes = Some b
             \<and> badge_of_box b = ''savegame_'' @ k"
proof -
  have "cb_id b \<in> set (map cb_id (filter filter_only boxes))"
    using assms(2,3) by auto
  then have "cb_id b \<in> (\<lambda>k. ''check_savegame_'' @ k) ` set filters"
    using assms(1) unfolding filter_ids filter_page_def by blast
  then obtain k where k: "k \<in> set filters" "cb_id b = ''check_savegame_'' @ k" by auto
  from assms(1) have d: "distinct (map cb_id boxes)" by (simp add: filter_page_def)
  from find_distinct_id[OF d assms(2)] k show ?thesis
    by (auto simp: badge_of_box_def)
qed

lemma filter_page_present: "filter_page boxes \<Longrightarrow> filter_boxes_present boxes"
  using filter_page_box_of_filter[of boxes]
  by (fastforce simp: filter_boxes_present_def list_all_iff)

lemma filter_page_checked_iff:
  assumes "filter_page boxes"
  shows "(\<forall>b \<in> set boxes. filter_only b \<and> checked b \<longrightarrow> badge_of_box b \<in> set (named modItem))
           = (\<forall>k \<in> set filters. filter_checked boxes k \<longrightarrow> has_badge modItem k)"
proof
  assume l: "\<forall>b \<in> set boxes. filter_only b \<and> checked b \<longrightarrow> badge_of_box b \<in> set (named modItem)"
  show "\<forall>k \<in> set filters. filter_checked boxes k \<longrightarrow> has_badge modItem k"
  proof (intro ballI impI)
    fix k assume k: "k \<in> set filters" and c: "filter_checked boxes k"
    from filter_page_box_of_filter[OF assms k] obtain b where
      b: "find (\<lambda>b. cb_id b = ''check_savegame_'' @ k) boxes = Some b" "filter_only b"
         "b \<in> set boxes" "badge_of_box b = ''savegame_'' @ k"
      by blast
    from c b(1) have "checked b" by (simp add: filter_checked_def byId_checked_def)
    with l b show "has_badge modItem k" by (auto simp: has_badge_def)
  qed
next
  assume r: "\<forall>k \<in> set filters. filter_checked boxes k \<longrightarrow> has_badge modItem k"
  show "\<forall>b \<in> set boxes. filter_only b \<and> checked b \<longrightarrow> badge_of_box b \<in> set (named modItem)"
  proof (intro ballI impI)
    fix b assume b: "b \<in> set boxes" and fc: "filter_only b \<and> checked b"
    from filter_page_filter_of_box[OF assms b] fc obtain k where
      k: "k \<in> set filters" "find (\<lambda>x. cb_id x = ''check_savegame_'' @ k) boxes = Some b"
         "badge_of_box b = ''savegame_'' @ k"
      by blast
    from k(2) fc have "filter_checked boxes k" by (simp add: filter_checked_def byId_checked_def)
    with r k show "badge_of_box b \<in> set (named modItem)" by (auto simp: has_badge_def)
  qed
qed

text \<open>
  Claim C5. On the page of the savegame window, whichever of its filter checkboxes are
  checked, \<open>clientChangeFilter\<close> shows an entry exactly when the entry holds the badge
  of every checked filter checkbox; with no filter checkbox checked every entry is
  shown. The names inside the entries are left as they are.
\<close>

theorem clientChangeFilter_shows_conjunction:
  assumes "filter_page boxes"
  shows "\<exists>shown. clientChangeFilter boxes modItems = Inr shown
           \<and> length shown = length modItems
           \<and> (\<forall>i < length modItems.
                 named (shown ! i) = named (modItems ! i)
                 \<and> (\<not> d_none (shown ! i))
                     = (\<forall>b \<in> set boxes. filter_only b \<and> checked b
                          \<longrightarrow> badge_of_box b \<in> set (named (modItems ! i))))
           \<and> ((\<forall>b \<in> set boxes. filter_only b \<longrightarrow> \<not> checked b)
                 \<longrightarrow> (\<forall>modItem \<in> set shown. \<not> d_none modItem))"
proof -
  from clientChangeFilter_by_filters[OF filter_page_present[OF assms], of modItems]
  obtain shown where
    r: "clientChangeFilter boxes modItems = Inr shown" and
    len: "length shown = length modItems" and
    each: "\<forall>i < length modItems.
             named (shown ! i) = named (modItems ! i)
             \<and> (\<not> d_none (shown ! i))
                 = (\<forall>k \<in> set filters. filter_checked boxes k \<longrightarrow> has_badge (modItems ! i) k)"
    by blast
  have each': "\<forall>i < length modItems.
             named (shown ! i) = named (modItems ! i)
             \<and> (\<not> d_none (shown ! i))
                 = (\<forall>b \<in> set boxes. filter_only b \<and> checked b
                      \<longrightarrow> badge_of_box b \<in> set (named (modItems ! i)))"
    using each filter_page_checked_iff[OF assms] by simp
  have "(\<forall>b \<in> set boxes. filter_only b \<longrightarrow> \<not> checked b)
          \<longrightarrow> (\<forall>modItem \<in> set shown. \<not> d_none modItem)"
  proof (intro impI ballI)
    fix modItem
    assume none: "\<forall>b \<in> set boxes. filter_only b \<longrightarrow> \<not> checked b"
       and "modItem \<in> set shown"
    then obtain i where i: "i < length shown" "shown ! i = modItem"
      by (auto simp: in_set_conv_nth)
    with each' len none show "\<not> d_none modItem" by auto
  qed
  with r len each' show ?thesis by blast
qed

theorem clientChangeFilter_shows_conjunction_witness:
  "filter_page ex_boxes
   \<and> map cb_id (filter (\<lambda>b. filter_only b \<and> checked b) ex_boxes)
        = [''check_savegame_missing'', ''check_savegame_unused'']
   \<and> map named ex_items
        = [[''savegame_nohub'', ''savegame_missing'', ''savegame_unused'', ''savegame_inactive''],
           [''savegame_nohub'', ''savegame_unused'', ''savegame_inactive''],
           [''savegame_missing'', ''savegame_isused'', ''savegame_isloaded''],
           [''savegame_isused'', ''savegame_isloaded'']]
   \<and> (\<exists>shown. clientChangeFilter ex_boxes ex_items = Inr shown
               \<and> map d_none shown = [False, True, True, True])"
proof -
  have p: "filter_page ex_boxes" by code_simp
  have c: "map cb_id (filter (\<lambda>b. filter_only b \<and> checked b) ex_boxes)
             = [''check_savegame_missing'', ''check_savegame_unused'']"
    by code_simp
  have n: "map named ex_items
        = [[''savegame_nohub'', ''savegame_missing'', ''savegame_unused'', ''savegame_inactive''],
           [''savegame_nohub'', ''savegame_unused'', ''savegame_inactive''],
           [''savegame_missing'', ''savegame_isused'', ''savegame_isloaded''],
           [''savegame_isused'', ''savegame_isloaded'']]"
    by code_simp
  have r: "map d_none (projr (clientChangeFilter ex_boxes ex_items)) = [False, True, True, True]"
    by code_simp
  from clientChangeFilter_shows_conjunction[OF p, of ex_items] obtain shown where
    "clientChangeFilter ex_boxes ex_items = Inr shown" by blast
  with r p c n show ?thesis by simp
qed

end
